theory Spec2Isabelle
  imports Complex_Main
begin

section \<open>Python and Qt values used by main.py\<close>

text \<open>
  The program is one Python file, \<^verbatim>\<open>main.py\<close>, built on PyQt6. Its three classes
  (\<^verbatim>\<open>DigitalClockWidget\<close>, \<^verbatim>\<open>SettingsWidget\<close>, \<^verbatim>\<open>MainApp\<close>) are modelled by records, its
  methods by functions on the program state, and every exception a method can raise by a
  value of \<open>py_error\<close> on the left of a sum.
\<close>

datatype py_error = KeyError | ValueError | OverflowError

subsection \<open>QColor\<close>

text \<open>
  A \<^verbatim>\<open>QColor\<close> with its validity flag and its three 8-bit channels. \<^verbatim>\<open>QColor.name()\<close>
  is the string \<^verbatim>\<open>#rrggbb\<close> in lower-case hexadecimal.
\<close>

record QColor =
  isValid :: bool
  red :: nat
  green :: nat
  blue :: nat

definition QColor_black :: QColor where
  "QColor_black = \<lparr>isValid = True, red = 0, green = 0, blue = 0\<rparr>"

definition QColor_red :: QColor where
  "QColor_red = \<lparr>isValid = True, red = 255, green = 0, blue = 0\<rparr>"

definition hex_digit :: "nat \<Rightarrow> char" where
  "hex_digit n = ''0123456789abcdef'' ! (n mod 16)"

definition hex2 :: "nat \<Rightarrow> string" where
  "hex2 n = [hex_digit (n div 16), hex_digit n]"

definition QColor_name :: "QColor \<Rightarrow> string" where
  "QColor_name c = CHR ''#'' # hex2 (red c) @ hex2 (green c) @ hex2 (blue c)"

subsection \<open>The settings mapping\<close>

text \<open>
  The settings are a Python \<^verbatim>\<open>dict\<close>. The program only ever stores the six keys written
  by \<^verbatim>\<open>SettingsWidget.__init__\<close>, each with values of one type, so the model keeps one
  optional entry per key: \<open>None\<close> is an absent key. The key \<^verbatim>\<open>'size'\<close> is the field
  \<open>size_mode\<close>. \<open>dict_get\<close> is \<^verbatim>\<open>d.get(k, default)\<close>, \<open>dict_item\<close> is \<^verbatim>\<open>d[k]\<close>,
  which raises \<^verbatim>\<open>KeyError\<close> on an absent key, and \<open>dict_is_empty\<close> is the truth value
  \<^verbatim>\<open>not d\<close>.
\<close>

record settings_dict =
  bg_color :: "QColor option"
  text_color :: "QColor option"
  size_mode :: "string option"
  gmt_offset :: "int option"
  font_family :: "string option"
  resolution :: "string option"

definition empty_dict :: settings_dict where
  "empty_dict = \<lparr>bg_color = None, text_color = None, size_mode = None,
     gmt_offset = None, font_family = None, resolution = None\<rparr>"

definition dict_is_empty :: "settings_dict \<Rightarrow> bool" where
  "dict_is_empty d \<longleftrightarrow> bg_color d = None \<and> text_color d = None \<and> size_mode d = None \<and>
     gmt_offset d = None \<and> font_family d = None \<and> resolution d = None"

definition dict_get :: "'a option \<Rightarrow> 'a \<Rightarrow> 'a" where
  "dict_get entry dflt = (case entry of None \<Rightarrow> dflt | Some v \<Rightarrow> v)"

definition dict_item :: "'a option \<Rightarrow> py_error + 'a" where
  "dict_item entry = (case entry of None \<Rightarrow> Inl KeyError | Some v \<Rightarrow> Inr v)"

text \<open>
  Python passes a \<^verbatim>\<open>dict\<close> by reference, and a \<^verbatim>\<open>pyqtSignal(dict)\<close> hands the emitted
  object itself to the connected slot. The mappings therefore live in a store, and the
  widgets hold addresses.
\<close>

type_synonym addr = nat
type_synonym store = "addr \<Rightarrow> settings_dict"

subsection \<open>Strings: \<^verbatim>\<open>str.split\<close>, \<^verbatim>\<open>int(str)\<close>, two-digit fields\<close>

text \<open>
  \<open>str_split c s\<close> is \<^verbatim>\<open>s.split(c)\<close> for a one-character separator: the pieces between
  the occurrences of \<open>c\<close>, empty pieces included, so the result is never empty.
\<close>

fun str_split :: "char \<Rightarrow> string \<Rightarrow> string list" where
  "str_split c [] = [[]]"
| "str_split c (x # xs) =
     (if x = c then [] # str_split c xs
      else (case str_split c xs of [] \<Rightarrow> [[x]] | p # ps \<Rightarrow> (x # p) # ps))"

text \<open>
  A \<open>char\<close> is a code point below 256, so a \<open>string\<close> is a Python \<^verbatim>\<open>str\<close> over
  that range. \<open>py_int\<close> is \<^verbatim>\<open>int(s)\<close> on such a text, \<open>None\<close> standing for
  \<^verbatim>\<open>ValueError\<close>. \<^verbatim>\<open>int\<close> skips white space at both ends: the six ASCII characters
  the C parser skips (tab, line feed, vertical tab, form feed, carriage return, space),
  and the two code points above 127 that are Unicode white space (U+0085 and U+00A0),
  which it turns into spaces first. The separators U+001C to U+001F, which
  \<^verbatim>\<open>str.isspace\<close> accepts, are not skipped. One sign may follow, then decimal digits,
  which single underscores may separate. The text is refused when it has more than
  \<open>max_str_digits\<close> digits, the interpreter's default limit.
\<close>

definition is_space :: "char \<Rightarrow> bool" where
  "is_space c \<longleftrightarrow> of_char c \<in> {9, 10, 11, 12, 13, 32, 133, 160 :: nat}"

definition strip :: "string \<Rightarrow> string" where
  "strip s = rev (dropWhile is_space (rev (dropWhile is_space s)))"

definition is_digit :: "char \<Rightarrow> bool" where
  "is_digit c \<longleftrightarrow> 48 \<le> (of_char c :: nat) \<and> (of_char c :: nat) \<le> 57"

definition digit_value :: "char \<Rightarrow> nat" where
  "digit_value c = of_char c - 48"

fun digits_tail :: "nat \<Rightarrow> string \<Rightarrow> nat option" where
  "digits_tail acc [] = Some acc"
| "digits_tail acc [c] = (if is_digit c then Some (10 * acc + digit_value c) else None)"
| "digits_tail acc (c # d # cs) =
     (if is_digit c then digits_tail (10 * acc + digit_value c) (d # cs)
      else if c = CHR ''_'' \<and> is_digit d then digits_tail (10 * acc + digit_value d) cs
      else None)"

definition digits :: "string \<Rightarrow> nat option" where
  "digits s = (case s of [] \<Rightarrow> None
     | c # cs \<Rightarrow> if is_digit c then digits_tail (digit_value c) cs else None)"

definition max_str_digits :: nat where
  "max_str_digits = 4300"

definition py_int :: "string \<Rightarrow> int option" where
  "py_int s = (case strip s of
       [] \<Rightarrow> None
     | c # cs \<Rightarrow>
         if max_str_digits < length (filter is_digit (c # cs)) then None
         else if c = CHR ''-'' then map_option (\<lambda>n. - int n) (digits cs)
         else if c = CHR ''+'' then map_option int (digits cs)
         else map_option int (digits (c # cs)))"

text \<open>
  \<open>two_digits n\<close> is what \<^verbatim>\<open>strftime\<close> writes for \<^verbatim>\<open>%H\<close> and \<^verbatim>\<open>%M\<close>: the decimal
  number \<open>n\<close>, below 100, padded with a zero to two digits.
\<close>

definition digit_char :: "int \<Rightarrow> char" where
  "digit_char n = char_of (48 + n)"

definition two_digits :: "int \<Rightarrow> string" where
  "two_digits n = [digit_char (n div 10), digit_char (n mod 10)]"

subsection \<open>datetime and timedelta\<close>

text \<open>
  A \<^verbatim>\<open>datetime\<close> keeps its calendar date as the proleptic Gregorian ordinal
  (\<^verbatim>\<open>toordinal()\<close>, 1 for 0001-01-01, \<open>MAXORDINAL\<close> for 9999-12-31), the form in which
  \<^verbatim>\<open>datetime.__add__\<close> computes; the clock only prints the hour and the minute. A
  \<^verbatim>\<open>timedelta\<close> is normalised by its constructor to days, seconds below 86400 and
  microseconds below 1000000, and its days are bounded by 999999999.
\<close>

record datetime =
  ordinal :: int
  hour :: int
  minute :: int
  second :: int
  microsecond :: int

record timedelta =
  days :: int
  seconds :: int
  microseconds :: int

definition MAXORDINAL :: int where
  "MAXORDINAL = 3652059"

definition valid_datetime :: "datetime \<Rightarrow> bool" where
  "valid_datetime t \<longleftrightarrow> 1 \<le> ordinal t \<and> ordinal t \<le> MAXORDINAL \<and>
     0 \<le> hour t \<and> hour t < 24 \<and> 0 \<le> minute t \<and> minute t < 60 \<and>
     0 \<le> second t \<and> second t < 60 \<and> 0 \<le> microsecond t \<and> microsecond t < 1000000"

definition new_timedelta :: "int \<Rightarrow> int \<Rightarrow> int \<Rightarrow> int \<Rightarrow> int \<Rightarrow> py_error + timedelta" where
  "new_timedelta d h m s us =
     (let s' = s + 60 * m + 3600 * h + us div 1000000;
          d' = d + s' div 86400
      in if 999999999 < \<bar>d'\<bar> then Inl OverflowError
         else Inr \<lparr>days = d', seconds = s' mod 86400, microseconds = us mod 1000000\<rparr>)"

definition timedelta_add :: "timedelta \<Rightarrow> timedelta \<Rightarrow> py_error + timedelta" where
  "timedelta_add a b =
     new_timedelta (days a + days b) 0 0 (seconds a + seconds b) (microseconds a + microseconds b)"

definition datetime_add :: "datetime \<Rightarrow> timedelta \<Rightarrow> py_error + datetime" where
  "datetime_add t other =
     (case new_timedelta (ordinal t) (hour t) (minute t) (second t) (microsecond t) of
        Inl e \<Rightarrow> Inl e
      | Inr delta0 \<Rightarrow>
     (case timedelta_add delta0 other of
        Inl e \<Rightarrow> Inl e
      | Inr delta \<Rightarrow>
          let h = seconds delta div 3600; rem = seconds delta mod 3600;
              m = rem div 60; s = rem mod 60
          in if 0 < days delta \<and> days delta \<le> MAXORDINAL
             then Inr \<lparr>ordinal = days delta, hour = h, minute = m, second = s,
                       microsecond = microseconds delta\<rparr>
             else Inl OverflowError))"

definition strftime_H :: "datetime \<Rightarrow> string" where
  "strftime_H t = two_digits (hour t)"

definition strftime_M :: "datetime \<Rightarrow> string" where
  "strftime_M t = two_digits (minute t)"

subsection \<open>Floating point\<close>

text \<open>
  A finite Python \<^verbatim>\<open>float\<close> is an IEEE 754 double: \<open>Dyadic m k\<close> is the number
  \<open>m / 2 ^ k\<close>, with \<open>m\<close> of at most 53 bits. \<open>round53\<close> rounds an integer to 53
  significant bits, ties to even, which is how an \<^verbatim>\<open>int\<close> becomes a \<^verbatim>\<open>float\<close> and how
  the exact product of two doubles is rounded (the products here are zero or normal
  numbers). \<^verbatim>\<open>int(x)\<close> truncates towards zero. The three literals of
  \<^verbatim>\<open>update_font_size\<close> are the doubles nearest to 0.30, 0.50 and 0.55.
\<close>

function bit_length :: "int \<Rightarrow> nat" where
  "bit_length n = (if n \<le> 0 then 0 else Suc (bit_length (n div 2)))"
  by pat_completeness auto
termination
  by (relation "measure nat") auto

declare bit_length.simps [simp del]

definition round_to_multiple :: "int \<Rightarrow> int \<Rightarrow> int" where
  "round_to_multiple u n =
     (let m = n div u; r = n mod u
      in (if u < 2 * r \<or> (2 * r = u \<and> odd m) then m + 1 else m) * u)"

definition round53 :: "int \<Rightarrow> int" where
  "round53 n =
     (let b = bit_length \<bar>n\<bar>
      in if b \<le> 53 then n else sgn n * round_to_multiple (2 ^ (b - 53)) \<bar>n\<bar>)"

datatype pyfloat = Dyadic int nat

definition float_of_int :: "int \<Rightarrow> py_error + pyfloat" where
  "float_of_int n =
     (let r = round53 n in if 2 ^ 1024 \<le> \<bar>r\<bar> then Inl OverflowError else Inr (Dyadic r 0))"

fun float_mul :: "pyfloat \<Rightarrow> pyfloat \<Rightarrow> pyfloat" where
  "float_mul (Dyadic m j) (Dyadic n k) = Dyadic (round53 (m * n)) (j + k)"

fun int_of_float :: "pyfloat \<Rightarrow> int" where
  "int_of_float (Dyadic m k) = (if 0 \<le> m then m div 2 ^ k else - ((- m) div 2 ^ k))"

definition float_0_30 :: pyfloat where
  "float_0_30 = Dyadic 5404319552844595 54"

definition float_0_50 :: pyfloat where
  "float_0_50 = Dyadic 1 1"

definition float_0_55 :: pyfloat where
  "float_0_55 = Dyadic 4953959590107546 53"

fun float_value :: "pyfloat \<Rightarrow> real" where
  "float_value (Dyadic m k) = real_of_int m / 2 ^ k"

section \<open>The program state\<close>

record QFont =
  family :: string
  pixelSize :: int

record DigitalClockWidget =
  settings :: addr
  timer_active :: bool
  timer_interval :: int
  colon_visible :: bool
  window_color :: "QColor option"
  label_color :: "QColor option"
  label_text :: string
  label_font :: "QFont option"
  has_focus :: bool

record SettingsWidget =
  form_settings :: addr

datatype screen = Settings_Screen | Clock_Screen

datatype window_mode = Normal | FullScreen

record MainApp =
  heap :: store
  settings_widget :: SettingsWidget
  clock_widget :: DigitalClockWidget
  current_widget :: screen
  window_state :: window_mode
  window_size :: "int \<times> int"
  minimum_size :: "int \<times> int"

text \<open>
  \<open>window_color\<close> and \<open>label_color\<close> are the \<^verbatim>\<open>Window\<close> role of the widget's palette and
  the \<^verbatim>\<open>WindowText\<close> role of the label's palette; \<open>None\<close> is the toolkit's default, as it is
  for \<open>label_font\<close>. The style sheets of the two colour buttons of the settings form are
  not part of the state: nothing else in the program reads them.

  \<open>window_size\<close> is the size of the window in its normal state, width first.
  \<open>minimum_size\<close> is the minimum size the window's layout has set on it
  (\<^verbatim>\<open>QWidget.minimumSize\<close>). The layout computes it from both pages of the stacked
  widget, the hidden one included, so from the settings form and from the font and the
  text of the clock's label. The program never sets it; it depends on font metrics, and
  the model takes each new value from the toolkit, as an event.
\<close>

section \<open>DigitalClockWidget\<close>

datatype key = Key_Escape | Other_key nat

datatype signal = Start_clock_signal addr | Return_to_settings

text \<open>
  A method that emits a signal returns the emitted signals beside the state; \<open>deliver\<close>
  below calls the slots that \<^verbatim>\<open>MainApp.__init__\<close> connects to them.
\<close>

definition start_clock :: "addr \<Rightarrow> MainApp \<Rightarrow> py_error + MainApp" where
  "start_clock s app =
     (let w = (clock_widget app)\<lparr>settings := s\<rparr> in
      case dict_item (bg_color (heap app s)) of
        Inl e \<Rightarrow> Inl e
      | Inr bg \<Rightarrow>
     (case dict_item (text_color (heap app s)) of
        Inl e \<Rightarrow> Inl e
      | Inr fg \<Rightarrow>
          Inr (app\<lparr>clock_widget := w\<lparr>window_color := Some bg, label_color := Some fg,
                 timer_active := True, timer_interval := 500, has_focus := True\<rparr>\<rparr>)))"

definition stop_clock :: "MainApp \<Rightarrow> MainApp" where
  "stop_clock app = app\<lparr>clock_widget := (clock_widget app)\<lparr>timer_active := False\<rparr>\<rparr>"

definition percentage :: "string \<Rightarrow> pyfloat" where
  "percentage mode =
     (if mode = ''Small'' then float_0_30
      else if mode = ''Medium'' then float_0_50
      else float_0_55)"

definition pixel_size :: "int \<Rightarrow> string \<Rightarrow> py_error + int" where
  "pixel_size target_height mode =
     (case float_of_int target_height of
        Inl e \<Rightarrow> Inl e
      | Inr h \<Rightarrow> Inr (int_of_float (float_mul h (percentage mode))))"

text \<open>
  \<^verbatim>\<open>QFont.setPixelSize\<close> takes a C \<^verbatim>\<open>int\<close>, so PyQt raises \<^verbatim>\<open>OverflowError\<close> outside 32
  bits, and Qt ignores a size that is not positive (the font keeps \<open>-1\<close>, no pixel size).
\<close>

definition setPixelSize :: "int \<Rightarrow> QFont \<Rightarrow> py_error + QFont" where
  "setPixelSize p f =
     (if p < - (2 ^ 31) \<or> 2 ^ 31 \<le> p then Inl OverflowError
      else if p \<le> 0 then Inr f
      else Inr (f\<lparr>pixelSize := p\<rparr>))"

definition update_font_size :: "int \<Rightarrow> int \<Rightarrow> string \<Rightarrow> MainApp \<Rightarrow> py_error + MainApp" where
  "update_font_size target_height target_width mode app =
     (case pixel_size target_height mode of
        Inl e \<Rightarrow> Inl e
      | Inr px \<Rightarrow>
          let w = clock_widget app;
              font_name = dict_get (font_family (heap app (settings w))) ''Monospace''
          in (case setPixelSize px \<lparr>family = font_name, pixelSize = - 1\<rparr> of
                Inl e \<Rightarrow> Inl e
              | Inr font \<Rightarrow> Inr (app\<lparr>clock_widget := w\<lparr>label_font := Some font\<rparr>\<rparr>)))"

definition colon_span :: "string \<Rightarrow> string" where
  \<open>colon_span color = ''<span style="color:'' @ color @ '';">:</span>''\<close>

definition update_time :: "datetime \<Rightarrow> MainApp \<Rightarrow> py_error + MainApp" where
  "update_time utc_now app =
     (let w = clock_widget app; d = heap app (settings w) in
      if dict_is_empty d then Inr app
      else
        case new_timedelta 0 (dict_get (gmt_offset d) 0) 0 0 0 of
          Inl e \<Rightarrow> Inl e
        | Inr shift \<Rightarrow>
       (case datetime_add utc_now shift of
          Inl e \<Rightarrow> Inl e
        | Inr current_time \<Rightarrow>
            let hours = strftime_H current_time;
                minutes = strftime_M current_time;
                color = QColor_name (dict_get (text_color d) QColor_red);
                colon_html = (if colon_visible w then colon_span color
                              else colon_span ''transparent'');
                time_html = hours @ colon_html @ minutes
            in Inr (app\<lparr>clock_widget :=
                          w\<lparr>label_text := time_html, colon_visible := \<not> colon_visible w\<rparr>\<rparr>)))"

definition keyPressEvent :: "key \<Rightarrow> MainApp \<Rightarrow> MainApp \<times> signal list" where
  "keyPressEvent k app = (if k = Key_Escape then (app, [Return_to_settings]) else (app, []))"

section \<open>SettingsWidget\<close>

definition default_settings :: settings_dict where
  "default_settings = \<lparr>bg_color = Some QColor_black, text_color = Some QColor_red,
     size_mode = Some ''Full Screen'', gmt_offset = Some (- 3),
     font_family = Some ''Monospace'', resolution = Some ''1920x1080''\<rparr>"

definition size_items :: "string list" where
  "size_items = [''Small'', ''Medium'', ''Full Screen'']"

definition font_items :: "string list" where
  "font_items = [''Monospace'', ''Liberation Mono'', ''DejaVu Sans Mono'',
     ''Courier New'', ''FreeMono'', ''Ubuntu Mono'']"

definition resolution_items :: "string list" where
  "resolution_items = [''1920x1080'', ''1680x1050'', ''1600x900'', ''1440x900'',
     ''1366x768'', ''1360x768'', ''1280x1024'', ''1280x960'', ''1280x800'',
     ''1280x720'', ''1280x600'']"

text \<open>
  Each handler writes one entry of the form's own mapping, in place. The colour handlers
  take the colour the dialog returned; a cancelled dialog returns an invalid colour.
\<close>

definition write_settings :: "(settings_dict \<Rightarrow> settings_dict) \<Rightarrow> MainApp \<Rightarrow> MainApp" where
  "write_settings f app =
     (let a = form_settings (settings_widget app)
      in app\<lparr>heap := (heap app)(a := f (heap app a))\<rparr>)"

definition choose_bg_color :: "QColor \<Rightarrow> MainApp \<Rightarrow> MainApp" where
  "choose_bg_color color app =
     (if isValid color then write_settings (\<lambda>d. d\<lparr>bg_color := Some color\<rparr>) app else app)"

definition choose_text_color :: "QColor \<Rightarrow> MainApp \<Rightarrow> MainApp" where
  "choose_text_color color app =
     (if isValid color then write_settings (\<lambda>d. d\<lparr>text_color := Some color\<rparr>) app else app)"

definition set_size :: "string \<Rightarrow> MainApp \<Rightarrow> MainApp" where
  "set_size text app = write_settings (\<lambda>d. d\<lparr>size_mode := Some text\<rparr>) app"

definition set_gmt :: "int \<Rightarrow> MainApp \<Rightarrow> MainApp" where
  "set_gmt v app = write_settings (\<lambda>d. d\<lparr>gmt_offset := Some v\<rparr>) app"

definition set_font :: "string \<Rightarrow> MainApp \<Rightarrow> MainApp" where
  "set_font text app = write_settings (\<lambda>d. d\<lparr>font_family := Some text\<rparr>) app"

definition set_resolution :: "string \<Rightarrow> MainApp \<Rightarrow> MainApp" where
  "set_resolution text app = write_settings (\<lambda>d. d\<lparr>resolution := Some text\<rparr>) app"

definition on_start :: "MainApp \<Rightarrow> MainApp \<times> signal list" where
  "on_start app = (app, [Start_clock_signal (form_settings (settings_widget app))])"

section \<open>MainApp\<close>

definition setCurrentWidget :: "screen \<Rightarrow> MainApp \<Rightarrow> MainApp" where
  "setCurrentWidget w app = app\<lparr>current_widget := w\<rparr>"

definition showNormal :: "MainApp \<Rightarrow> MainApp" where
  "showNormal app = app\<lparr>window_state := Normal\<rparr>"

definition showFullScreen :: "MainApp \<Rightarrow> MainApp" where
  "showFullScreen app = app\<lparr>window_state := FullScreen\<rparr>"

text \<open>
  \<^verbatim>\<open>QWidget.resize\<close> adjusts the requested size when it lies outside the range from the
  minimum to the maximum size of the widget: no dimension gets below the minimum. The
  maximum stays at Qt's default, 16777215, which no request of the program reaches.
  \<open>expandedTo\<close> is \<^verbatim>\<open>QSize.expandedTo\<close>, the larger of the two in each dimension.
  \<^verbatim>\<open>QWidget.setMinimumSize\<close>, which the layout calls, enlarges a window that is smaller
  than the new minimum.
\<close>

definition expandedTo :: "int \<times> int \<Rightarrow> int \<times> int \<Rightarrow> int \<times> int" where
  "expandedTo a b = (max (fst a) (fst b), max (snd a) (snd b))"

definition resize :: "int \<Rightarrow> int \<Rightarrow> MainApp \<Rightarrow> MainApp" where
  "resize w h app = app\<lparr>window_size := expandedTo (w, h) (minimum_size app)\<rparr>"

definition setMinimumSize :: "int \<times> int \<Rightarrow> MainApp \<Rightarrow> MainApp" where
  "setMinimumSize m app =
     app\<lparr>minimum_size := m, window_size := expandedTo (window_size app) m\<rparr>"

definition setFocus :: "MainApp \<Rightarrow> MainApp" where
  "setFocus app = app\<lparr>clock_widget := (clock_widget app)\<lparr>has_focus := True\<rparr>\<rparr>"

definition show_settings :: "MainApp \<Rightarrow> MainApp" where
  "show_settings app =
     (let app1 = stop_clock app;
          app2 = showNormal app1;
          app3 = resize 400 500 app2
      in setCurrentWidget Settings_Screen app3)"

definition parse_resolution :: "string \<Rightarrow> py_error + int \<times> int" where
  "parse_resolution text =
     (case str_split CHR ''x'' text of
        [width_str, height_str] \<Rightarrow>
          (case py_int width_str of
             None \<Rightarrow> Inl ValueError
           | Some screen_width \<Rightarrow>
          (case py_int height_str of
             None \<Rightarrow> Inl ValueError
           | Some screen_height \<Rightarrow> Inr (screen_width, screen_height)))
      | _ \<Rightarrow> Inl ValueError)"

definition select_window :: "string \<Rightarrow> MainApp \<Rightarrow> MainApp" where
  "select_window mode app =
     (if mode = ''Full Screen'' then showFullScreen app
      else let app' = showNormal app
           in if mode = ''Small'' then resize 400 200 app'
              else if mode = ''Medium'' then resize 800 400 app'
              else app')"

text \<open>
  \<open>parse_resolution\<close> is lines 265 to 267 of \<^verbatim>\<open>show_clock\<close> and \<open>select_window\<close> its
  lines 270 to 277. \<^verbatim>\<open>QApplication.processEvents()\<close> finds no pending event in this
  model: the layout does its work between two calls of the program's slots.
\<close>

definition show_clock :: "addr \<Rightarrow> MainApp \<Rightarrow> py_error + MainApp" where
  "show_clock s app =
     (let app1 = setCurrentWidget Clock_Screen app in
      case parse_resolution (dict_get (resolution (heap app1 s)) ''1920x1080'') of
        Inl e \<Rightarrow> Inl e
      | Inr (screen_width, screen_height) \<Rightarrow>
     (case dict_item (size_mode (heap app1 s)) of
        Inl e \<Rightarrow> Inl e
      | Inr mode \<Rightarrow>
     (case start_clock s (select_window mode app1) of
        Inl e \<Rightarrow> Inl e
      | Inr app2 \<Rightarrow>
     (case dict_item (size_mode (heap app2 s)) of
        Inl e \<Rightarrow> Inl e
      | Inr mode' \<Rightarrow>
     (case update_font_size screen_height screen_width mode' app2 of
        Inl e \<Rightarrow> Inl e
      | Inr app3 \<Rightarrow> Inr (setFocus app3))))))"

text \<open>
  The state \<^verbatim>\<open>MainApp.__init__\<close> leaves: the form's mapping is the object at address 0,
  the clock's own empty mapping the object at address 1. The layout has not run yet, so
  the window has no minimum size.
\<close>

definition MainApp_init :: MainApp where
  "MainApp_init = show_settings
     \<lparr>heap = (\<lambda>_. empty_dict)(0 := default_settings),
      settings_widget = \<lparr>form_settings = 0\<rparr>,
      clock_widget = \<lparr>settings = 1, timer_active = False, timer_interval = 0,
        colon_visible = True, window_color = None, label_color = None, label_text = [],
        label_font = None, has_focus = False\<rparr>,
      current_widget = Settings_Screen, window_state = Normal, window_size = (640, 480),
      minimum_size = (0, 0)\<rparr>"

subsection \<open>Events\<close>

text \<open>
  The calls the toolkit makes into the program: a change of a form control, a click on
  the start button, a key press on the clock, a timeout of the clock's timer at a UTC
  instant. A stopped timer does not fire; no other condition is put on the order of the
  calls. An exception that leaves a slot ends the run. \<open>Layout_request m\<close> is the
  layout's own work between two calls: it has computed the minimum size \<open>m\<close> and sets
  it on the window.
\<close>

datatype event =
    Bg_color_chosen QColor
  | Text_color_chosen QColor
  | Size_changed string
  | Gmt_changed int
  | Font_changed string
  | Resolution_changed string
  | Start_clicked
  | Key_pressed key
  | Timeout datetime
  | Layout_request "int \<times> int"

fun deliver :: "signal \<Rightarrow> MainApp \<Rightarrow> py_error + MainApp" where
  "deliver (Start_clock_signal s) app = show_clock s app"
| "deliver Return_to_settings app = Inr (show_settings app)"

fun deliver_all :: "signal list \<Rightarrow> MainApp \<Rightarrow> py_error + MainApp" where
  "deliver_all [] app = Inr app"
| "deliver_all (x # xs) app =
     (case deliver x app of Inl e \<Rightarrow> Inl e | Inr app' \<Rightarrow> deliver_all xs app')"

fun handle :: "event \<Rightarrow> MainApp \<Rightarrow> py_error + MainApp" where
  "handle (Bg_color_chosen c) app = Inr (choose_bg_color c app)"
| "handle (Text_color_chosen c) app = Inr (choose_text_color c app)"
| "handle (Size_changed t) app = Inr (set_size t app)"
| "handle (Gmt_changed v) app = Inr (set_gmt v app)"
| "handle (Font_changed t) app = Inr (set_font t app)"
| "handle (Resolution_changed t) app = Inr (set_resolution t app)"
| "handle Start_clicked app = (case on_start app of (app', sigs) \<Rightarrow> deliver_all sigs app')"
| "handle (Key_pressed k) app =
     (case keyPressEvent k app of (app', sigs) \<Rightarrow> deliver_all sigs app')"
| "handle (Timeout t) app =
     (if timer_active (clock_widget app) then update_time t app else Inr app)"
| "handle (Layout_request m) app = Inr (setMinimumSize m app)"



text \<open>
  \<open>shown_color\<close> and \<open>shown_offset\<close> are the locals \<^verbatim>\<open>text_color\<close> and \<^verbatim>\<open>offset\<close> of
  \<^verbatim>\<open>update_time\<close>. \<open>started\<close> is the state after a click on the start button in the
  initial state.
\<close>

definition shown_color :: "MainApp \<Rightarrow> string" where
  "shown_color app =
     QColor_name (dict_get (text_color (heap app (settings (clock_widget app)))) QColor_red)"


definition started :: MainApp where
  "started = (case handle Start_clicked MainApp_init of Inr app \<Rightarrow> app | Inl e \<Rightarrow> MainApp_init)"


section \<open>The specification's own terms\<close>

text \<open>
  The font size as the specification words it: the floor of the selected height times
  0.30, 0.50 or 0.55, in the real numbers.
\<close>

definition spec_percentage :: "string \<Rightarrow> real" where
  "spec_percentage mode =
     (if mode = ''Small'' then 0.30 else if mode = ''Medium'' then 0.50 else 0.55)"

definition spec_pixel_size :: "int \<Rightarrow> string \<Rightarrow> int" where
  "spec_pixel_size selected_height mode = \<lfloor>real_of_int selected_height * spec_percentage mode\<rfloor>"

text \<open>
  The form of a resolution as the specification names it, \<^verbatim>\<open>WIDTHxHEIGHT\<close> with integer
  parts: one \<^verbatim>\<open>x\<close> between two integer texts. An integer text is written out as a
  grammar, with no reference to the parser: a decimal body is a digit, or a digit before
  a decimal body, or a digit and an underscore before a decimal body; an integer text is
  a decimal body of at most \<open>max_str_digits\<close> digits, after an optional sign, between
  two runs of white space.
\<close>

inductive decimal_body :: "string \<Rightarrow> bool" where
  one: "is_digit c \<Longrightarrow> decimal_body [c]"
| more: "is_digit c \<Longrightarrow> decimal_body b \<Longrightarrow> decimal_body (c # b)"
| group: "is_digit c \<Longrightarrow> decimal_body b \<Longrightarrow> decimal_body (c # CHR ''_'' # b)"

definition integer_text :: "string \<Rightarrow> bool" where
  "integer_text s \<longleftrightarrow>
     (\<exists>lead sign body trail. s = lead @ sign @ body @ trail \<and>
        (\<forall>c \<in> set lead. is_space c) \<and> (\<forall>c \<in> set trail. is_space c) \<and>
        sign \<in> {[], ''+'', ''-''} \<and> decimal_body body \<and>
        length (filter is_digit body) \<le> max_str_digits)"

definition resolution_form :: "string \<Rightarrow> bool" where
  "resolution_form text \<longleftrightarrow>
     (\<exists>width height. text = width @ ''x'' @ height \<and>
        CHR ''x'' \<notin> set width \<and> CHR ''x'' \<notin> set height \<and>
        integer_text width \<and> integer_text height)"

section \<open>Rounding to 53 bits\<close>

lemma bit_length_bounds:
  "0 < n \<Longrightarrow> 2 ^ (bit_length n - 1) \<le> n \<and> n < 2 ^ bit_length n"
proof (induction n rule: bit_length.induct)
  case (1 n)
  show ?case
  proof (cases "n = 1")
    case True
    then show ?thesis by (simp add: bit_length.simps)
  next
    case False
    with "1.prems" have pos: "0 < n div 2" by simp
    from "1.prems" have n0: "\<not> n \<le> 0" by simp
    from "1.IH"[OF n0 pos]
    have lo: "2 ^ (bit_length (n div 2) - 1) \<le> n div 2"
      and hi: "n div 2 < 2 ^ bit_length (n div 2)" by simp_all
    from pos have bpos: "0 < bit_length (n div 2)"
      by (subst bit_length.simps) simp
    have eq: "bit_length n = Suc (bit_length (n div 2))"
      using n0 by (subst bit_length.simps) simp
    from bpos obtain j where j: "bit_length (n div 2) = Suc j"
      by (cases "bit_length (n div 2)") simp_all
    from lo hi show ?thesis
      unfolding eq j by (simp; arith)
  qed
qed

lemma round_to_multiple_error:
  assumes "0 < u"
  shows "2 * \<bar>round_to_multiple u n - n\<bar> \<le> u"
proof -
  have n: "n = (n div u) * u + n mod u" by simp
  have r: "0 \<le> n mod u" "n mod u < u" using assms by simp_all
  have up: "(n div u + 1) * u - n = u - n mod u"
    by (metis add_diff_cancel_left' diff_diff_eq2 distrib_right mult_1 n add.commute)
  have dn: "n div u * u - n = - (n mod u)"
    using n by linarith
  show ?thesis
    using r up dn by (auto simp: round_to_multiple_def Let_def)
qed

lemma round_to_multiple_ge:
  assumes "0 < u" "u dvd t" "t \<le> n"
  shows "t \<le> round_to_multiple u n"
proof -
  from assms(2) obtain k where k: "t = k * u" by (auto simp: dvd_def mult.commute)
  with assms have "k \<le> n div u"
    by (metis div_mult_self_is_m nonzero_mult_div_cancel_right less_irrefl zdiv_mono1)
  then have "k * u \<le> n div u * u" "k * u \<le> (n div u + 1) * u"
    using assms(1) by (simp_all add: mult_right_mono)
  then show ?thesis
    by (simp add: round_to_multiple_def Let_def k)
qed

lemma round_to_multiple_up:
  assumes "0 < u" "u dvd t" "n < t" "2 * (t - n) < u"
  shows "round_to_multiple u n = t"
proof -
  from assms(2) obtain k where k: "t = k * u" by (auto simp: dvd_def mult.commute)
  have n: "n = (k - 1) * u + (u - (t - n))"
    by (simp add: k algebra_simps)
  have rng: "0 \<le> u - (t - n)" "u - (t - n) < u" using assms by simp_all
  have n': "n = u * (k - 1) + (u - (t - n))"
    using n by (simp add: mult.commute)
  have d: "n div u = k - 1"
    using n' rng by (rule int_div_pos_eq)
  have m: "n mod u = u - (t - n)"
    using n' rng by (rule int_mod_pos_eq)
  have "u < 2 * (n mod u)" using assms m by simp
  then show ?thesis
    by (simp add: round_to_multiple_def Let_def d k)
qed


lemma one_less_two_int: "(1::int) < 2"
  by simp

lemma round53_small:
  assumes "\<bar>n\<bar> < 2 ^ 53"
  shows "round53 n = n"
proof (cases "n = 0")
  case True
  then show ?thesis by (simp add: round53_def bit_length.simps)
next
  case False
  then have pos: "0 < \<bar>n\<bar>" by simp
  from bit_length_bounds[OF pos] assms
  have "(2::int) ^ (bit_length \<bar>n\<bar> - 1) < 2 ^ 53" by linarith
  with one_less_two_int have "bit_length \<bar>n\<bar> - 1 < 53" by (rule power_less_imp_less_exp)
  then have "bit_length \<bar>n\<bar> \<le> 53" by simp
  then show ?thesis by (simp add: round53_def Let_def)
qed

lemma round53_large:
  assumes "2 ^ 53 \<le> n" "n < 2 ^ 84"
  obtains u where "0 < u" "u dvd 2 ^ 53" "u * 2 ^ 52 \<le> n" "n < u * 2 ^ 53"
    "round53 n = round_to_multiple u n"
proof -
  define b where "b = bit_length n"
  from assms have pos: "0 < n" by simp
  from bit_length_bounds[OF pos]
  have lo: "2 ^ (b - 1) \<le> n" and hi: "n < 2 ^ b" by (simp_all add: b_def)
  from assms(1) hi have "(2::int) ^ 53 < 2 ^ b" by linarith
  with one_less_two_int have b53: "53 < b" by (rule power_less_imp_less_exp)
  from assms(2) lo have "(2::int) ^ (b - 1) < 2 ^ 84" by linarith
  with one_less_two_int have b84: "b - 1 < 84" by (rule power_less_imp_less_exp)
  define u :: int where "u = 2 ^ (b - 53)"
  have u0: "0 < u" by (simp add: u_def)
  have "b - 53 \<le> 53" using b84 by simp
  then have ud: "u dvd 2 ^ 53" unfolding u_def by (rule le_imp_power_dvd)
  have "u * 2 ^ 52 = 2 ^ (b - 53 + 52)" by (simp add: u_def power_add)
  also have "b - 53 + 52 = b - 1" using b53 by simp
  finally have ul: "u * 2 ^ 52 \<le> n" using lo by simp
  have "u * 2 ^ 53 = 2 ^ (b - 53 + 53)" unfolding u_def by (rule power_add[symmetric])
  also have "b - 53 + 53 = b" using b53 by simp
  finally have uh: "n < u * 2 ^ 53" using hi by simp
  have r: "round53 n = round_to_multiple u n"
    using b53 pos by (simp add: round53_def Let_def b_def[symmetric] u_def)
  from u0 ud ul uh r show ?thesis by (rule that)
qed

lemma round53_error:
  assumes "0 \<le> n" "n < 2 ^ 84"
  shows "\<bar>round53 n - n\<bar> * 2 ^ 53 \<le> n"
proof (cases "n < 2 ^ 53")
  case True
  with assms have "round53 n = n" by (simp add: round53_small)
  with assms show ?thesis by simp
next
  case False
  then have "2 ^ 53 \<le> n" by simp
  from this assms(2) obtain u where u: "0 < u" "u * 2 ^ 52 \<le> n"
    "round53 n = round_to_multiple u n" by (rule round53_large)
  from round_to_multiple_error[OF u(1), of n] u(2,3) show ?thesis by simp
qed

lemma round53_ge:
  assumes "0 \<le> n" "n < 2 ^ 84" "2 ^ 53 dvd t" "t \<le> n"
  shows "t \<le> round53 n"
proof (cases "n < 2 ^ 53")
  case True
  with assms have "round53 n = n" by (simp add: round53_small)
  with assms show ?thesis by simp
next
  case False
  then have "2 ^ 53 \<le> n" by simp
  from this assms(2) obtain u where u: "0 < u" "u dvd 2 ^ 53"
    "round53 n = round_to_multiple u n" by (rule round53_large)
  from u(2) assms(3) have "u dvd t" by (rule dvd_trans)
  from round_to_multiple_ge[OF u(1) this assms(4)] u(3) show ?thesis by simp
qed

lemma round53_up:
  assumes "2 ^ 53 \<le> n" "n < 2 ^ 84" "2 ^ 53 dvd t" "n < t" "(t - n) * 2 ^ 54 < n"
  shows "round53 n = t"
proof -
  from assms(1,2) obtain u where u: "0 < u" "u dvd 2 ^ 53" "u * 2 ^ 52 \<le> n"
    "round53 n = round_to_multiple u n" "n < u * 2 ^ 53"
    by (rule round53_large[where thesis=thesis]) blast
  from u(2) assms(3) have ut: "u dvd t" by (rule dvd_trans)
  from assms(5) u(5) have "2 * (t - n) < u" by simp
  with u(1) ut assms(4) have "round_to_multiple u n = t" by (rule round_to_multiple_up)
  with u(4) show ?thesis by simp
qed


lemma div_between:
  assumes "q * d \<le> (r::int)" "r < (q + 1) * d"
  shows "r div d = q"
proof -
  have "r = d * q + (r - q * d)" by (simp add: mult.commute)
  moreover have "0 \<le> r - q * d" using assms(1) by simp
  moreover have "r - q * d < d" using assms(2) by (simp add: algebra_simps)
  ultimately show ?thesis by (rule int_div_pos_eq)
qed

lemma small_core:
  assumes "0 \<le> h" "h < 2 ^ 31"
  shows "round53 (h * 5404319552844595) div 2 ^ 54 = 3 * h div 10"
proof -
  define n where "n = h * 5404319552844595"
  define q where "q = 3 * h div 10"
  define p where "p = 3 * h mod 10"
  have hq: "3 * h = 10 * q + p" and p: "0 \<le> p" "p < 10"
    by (simp_all add: q_def p_def)
  have n10: "10 * n = 54043195528445950 * h" by (simp add: n_def)
  have n0: "0 \<le> n" and n84: "n < 2 ^ 84" using assms by (simp_all add: n_def)
  from round53_error[OF n0 n84] n84 have err: "\<bar>round53 n - n\<bar> < 2147483648" by simp
  have up: "round53 n < (q + 1) * 2 ^ 54"
    using err hq p n10 assms by simp
  have lo: "q * 2 ^ 54 \<le> round53 n"
  proof (cases "p = 0")
    case False
    then show ?thesis using err hq p n10 assms by simp
  next
    case True
    show ?thesis
    proof (cases "h = 0")
      case True
      then have "n = 0" "q = 0" by (simp_all add: n_def q_def)
      then show ?thesis by (simp add: round53_small)
    next
      case False
      with assms(1) hq \<open>p = 0\<close> have h10: "10 \<le> h" by presburger
      have big: "2 ^ 53 \<le> n" using h10 by (simp add: n_def)
      have dv: "(2::int) ^ 53 dvd q * 2 ^ 54"
        by (rule dvd_mult) (simp add: le_imp_power_dvd)
      have lt: "n < q * 2 ^ 54" using hq \<open>p = 0\<close> n10 h10 by simp
      have cl: "(q * 2 ^ 54 - n) * 2 ^ 54 < n" using hq \<open>p = 0\<close> n10 h10 by simp
      from big n84 dv lt cl have "round53 n = q * 2 ^ 54" by (rule round53_up)
      then show ?thesis by simp
    qed
  qed
  from lo up have "round53 n div 2 ^ 54 = q" by (rule div_between)
  then show ?thesis by (simp add: n_def q_def)
qed

lemma full_core:
  assumes "0 \<le> h" "h < 2 ^ 31"
  shows "round53 (h * 4953959590107546) div 2 ^ 53 = 11 * h div 20"
proof -
  define n where "n = h * 4953959590107546"
  define q where "q = 11 * h div 20"
  define p where "p = 11 * h mod 20"
  have hq: "11 * h = 20 * q + p" and p: "0 \<le> p" "p < 20"
    by (simp_all add: q_def p_def)
  have n20: "20 * n = 99079191802150920 * h" by (simp add: n_def)
  have n0: "0 \<le> n" and n84: "n < 2 ^ 84" using assms by (simp_all add: n_def)
  from round53_error[OF n0 n84] n84 have err: "\<bar>round53 n - n\<bar> < 2147483648" by simp
  have up: "round53 n < (q + 1) * 2 ^ 53"
    using err hq p n20 assms by simp
  have dv: "(2::int) ^ 53 dvd q * 2 ^ 53" by simp
  have le: "q * 2 ^ 53 \<le> n" using hq p n20 assms by simp
  from n0 n84 dv le have lo: "q * 2 ^ 53 \<le> round53 n" by (rule round53_ge)
  from lo up have "round53 n div 2 ^ 53 = q" by (rule div_between)
  then show ?thesis by (simp add: n_def q_def)
qed

section \<open>The font size in integers\<close>

text \<open>
  The three literals are doubles, with a mantissa of 53 bits or an exact value, and each
  is within half a unit in the last place of the decimal it is written as.
\<close>

lemma float_literals:
  "\<bar>float_value float_0_30 - 0.30\<bar> \<le> 1 / 2 ^ 55"
  "float_value float_0_50 = 0.50"
  "\<bar>float_value float_0_55 - 0.55\<bar> \<le> 1 / 2 ^ 54"
  "(2::int) ^ 52 \<le> 5404319552844595 \<and> (5404319552844595::int) < 2 ^ 53"
  "(2::int) ^ 52 \<le> 4953959590107546 \<and> (4953959590107546::int) < 2 ^ 53"
  by (simp_all add: float_0_30_def float_0_50_def float_0_55_def)


lemma float_of_int_exact:
  assumes "\<bar>h\<bar> < 2 ^ 53"
  shows "float_of_int h = Inr (Dyadic h 0)"
proof -
  have "(2::int) ^ 53 \<le> 2 ^ 1024" by (rule power_increasing) simp_all
  with assms have "\<bar>h\<bar> < 2 ^ 1024" by linarith
  then have "\<not> 2 ^ 1024 \<le> \<bar>h\<bar>" by linarith
  with assms show ?thesis unfolding float_of_int_def Let_def round53_small[OF assms] by simp
qed

lemma pixel_size_value:
  assumes "0 \<le> h" "h < 2 ^ 31"
  shows "pixel_size h mode =
    Inr (if mode = ''Small'' then 3 * h div 10
         else if mode = ''Medium'' then h div 2 else 11 * h div 20)"
proof -
  from assms have "\<bar>h\<bar> < 2 ^ 53" by simp
  then have f: "float_of_int h = Inr (Dyadic h 0)" by (rule float_of_int_exact)
  from assms have r0: "0 \<le> round53 (h * 5404319552844595)"
    using round53_ge[of "h * 5404319552844595" 0] by simp
  from assms have r1: "0 \<le> round53 (h * 4953959590107546)"
    using round53_ge[of "h * 4953959590107546" 0] by simp
  from assms have r2: "round53 h = h" by (simp add: round53_small)
  show ?thesis
    using assms r0 r1 r2 small_core[OF assms] full_core[OF assms]
    by (simp add: pixel_size_def f percentage_def float_0_30_def float_0_50_def
        float_0_55_def)
qed

lemma spec_pixel_size_value:
  "spec_pixel_size h mode =
    (if mode = ''Small'' then 3 * h div 10
     else if mode = ''Medium'' then h div 2 else 11 * h div 20)"
proof -
  have a: "real_of_int h * 0.30 = real_of_int (3 * h) / real_of_int 10" by simp
  have b: "real_of_int h * 0.50 = real_of_int h / real_of_int 2" by simp
  have c: "real_of_int h * 0.55 = real_of_int (11 * h) / real_of_int 20" by simp
  show ?thesis
    unfolding spec_pixel_size_def spec_percentage_def
    by (simp only: a b c floor_divide_of_int_eq if_distrib[of "\<lambda>x. \<lfloor>real_of_int h * x\<rfloor>"] if_distrib[of floor] if_distrib[of "(*) (real_of_int h)"])
qed

section \<open>What each method changes\<close>

lemma update_time_frame:
  assumes "update_time t app = Inr app'"
  shows "heap app' = heap app" "current_widget app' = current_widget app"
    "timer_active (clock_widget app') = timer_active (clock_widget app)"
    "settings_widget app' = settings_widget app"
    "settings (clock_widget app') = settings (clock_widget app)"
    "window_state app' = window_state app" "window_size app' = window_size app"
    "minimum_size app' = minimum_size app"
  using assms
  by (auto simp: update_time_def Let_def split: if_splits sum.splits)

lemma start_clock_frame:
  assumes "start_clock s app = Inr app'"
  shows "heap app' = heap app" "current_widget app' = current_widget app"
    "settings_widget app' = settings_widget app"
    "window_state app' = window_state app" "window_size app' = window_size app"
    "timer_active (clock_widget app')" "settings (clock_widget app') = s"
  using assms
  by (auto simp: start_clock_def Let_def dict_item_def split: option.splits)

lemma update_font_size_frame:
  assumes "update_font_size h w m app = Inr app'"
  shows "heap app' = heap app" "current_widget app' = current_widget app"
    "settings_widget app' = settings_widget app"
    "window_state app' = window_state app" "window_size app' = window_size app"
    "timer_active (clock_widget app') = timer_active (clock_widget app)"
    "settings (clock_widget app') = settings (clock_widget app)"
  using assms
  by (auto simp: update_font_size_def Let_def split: sum.splits)



lemma show_settings_state:
  "heap (show_settings app) = heap app"
  "current_widget (show_settings app) = Settings_Screen"
  "\<not> timer_active (clock_widget (show_settings app))"
  "window_state (show_settings app) = Normal"
  "window_size (show_settings app) = expandedTo (400, 500) (minimum_size app)"
  "settings_widget (show_settings app) = settings_widget app"
  "minimum_size (show_settings app) = minimum_size app"
  by (simp_all add: show_settings_def stop_clock_def showNormal_def resize_def
      setCurrentWidget_def Let_def)






lemma pixel_size_spec:
  assumes "0 \<le> h" "h < 2 ^ 31"
  shows "pixel_size h mode = Inr (spec_pixel_size h mode)"
  using pixel_size_value[OF assms, of mode] by (simp only: spec_pixel_size_value)

lemma spec_pixel_size_bounds:
  assumes "0 \<le> h" "h < 2 ^ 31"
  shows "0 \<le> spec_pixel_size h mode" "spec_pixel_size h mode < 2 ^ 31"
  using assms by (auto simp: spec_pixel_size_value)

lemma update_font_size_result:
  assumes "0 \<le> h" "h < 2 ^ 31"
  shows "update_font_size h w mode app =
    Inr (app\<lparr>clock_widget := (clock_widget app)\<lparr>label_font := Some
      \<lparr>family = dict_get (font_family (heap app (settings (clock_widget app)))) ''Monospace'',
       pixelSize = (if 0 < spec_pixel_size h mode then spec_pixel_size h mode else - 1)\<rparr>\<rparr>\<rparr>)"
  using spec_pixel_size_bounds[OF assms, of mode]
  by (simp add: update_font_size_def pixel_size_spec[OF assms] setPixelSize_def Let_def)

lemma show_clock_result:
  assumes "parse_resolution (dict_get (resolution (heap app s)) ''1920x1080'') = Inr (w, h)"
    and "0 \<le> h" "h < 2 ^ 31"
    and "size_mode (heap app s) = Some mode"
    and "bg_color (heap app s) = Some bg" "text_color (heap app s) = Some fg"
  shows "show_clock s app =
    Inr ((select_window mode app)\<lparr>current_widget := Clock_Screen,
      clock_widget := (clock_widget app)\<lparr>settings := s, window_color := Some bg,
        label_color := Some fg, timer_active := True, timer_interval := 500,
        has_focus := True,
        label_font := Some \<lparr>family = dict_get (font_family (heap app s)) ''Monospace'',
          pixelSize = (if 0 < spec_pixel_size h mode then spec_pixel_size h mode else - 1)\<rparr>\<rparr>\<rparr>)"
  using assms(1,4,5,6)
  by (simp add: show_clock_def Let_def setCurrentWidget_def dict_item_def start_clock_def
      update_font_size_result[OF assms(2,3)] setFocus_def select_window_def
      showFullScreen_def showNormal_def resize_def)

section \<open>The displayed time\<close>

lemma clock_arith:
  fixes h m s off :: int
  assumes "0 \<le> h" "h < 24" "0 \<le> m" "m < 60" "0 \<le> s" "s < 60"
  defines "S \<equiv> s + 60 * m + 3600 * h + (3600 * off) mod 86400"
  shows "(3600 * off) div 86400 + S div 86400 = (h + off) div 24"
    and "(S mod 86400) div 3600 = (h + off) mod 24"
    and "((S mod 86400) mod 3600) div 60 = m"
    and "((S mod 86400) mod 3600) mod 60 = s"
proof -
  define k where "k = off div 24"
  define r where "r = off mod 24"
  have off: "off = 24 * k + r" and r: "0 \<le> r" "r < 24" by (simp_all add: k_def r_def)
  define j where "j = (h + r) div 24"
  define g where "g = (h + r) mod 24"
  have hr: "h + r = 24 * j + g" and g: "0 \<le> g" "g < 24" by (simp_all add: j_def g_def)
  have a: "3600 * off = 86400 * k + 3600 * r" using off by simp
  have a1: "(3600 * off) div 86400 = k" using a r by (intro int_div_pos_eq[of _ _ _ "3600 * r"]) simp_all
  have a2: "(3600 * off) mod 86400 = 3600 * r" using a r by (intro int_mod_pos_eq[of _ _ k]) simp_all
  define low where "low = 3600 * g + 60 * m + s"
  have low: "0 \<le> low" "low < 86400" using g assms(1-6) by (simp_all add: low_def)
  have S: "S = 86400 * j + low" using hr by (simp add: S_def a2 low_def)
  have S1: "S div 86400 = j" using S low by (rule int_div_pos_eq)
  have S2: "S mod 86400 = low" using S low by (rule int_mod_pos_eq)
  have l0: "low = 3600 * g + (60 * m + s)" by (simp add: low_def)
  have ms: "0 \<le> 60 * m + s" "60 * m + s < 3600" using assms(1-6) by simp_all
  have l1: "low div 3600 = g" using l0 ms by (rule int_div_pos_eq)
  have l2: "low mod 3600 = 60 * m + s" using l0 ms by (rule int_mod_pos_eq)
  have m1: "(60 * m + s) div 60 = m" using refl assms(5,6) by (rule int_div_pos_eq)
  have m2: "(60 * m + s) mod 60 = s" using refl assms(5,6) by (rule int_mod_pos_eq)
  have t: "h + off = 24 * (k + j) + g" using off hr by simp
  have t1: "(h + off) div 24 = k + j" using t g by (rule int_div_pos_eq)
  have t2: "(h + off) mod 24 = g" using t g by (rule int_mod_pos_eq)
  show "(3600 * off) div 86400 + S div 86400 = (h + off) div 24" by (simp add: a1 S1 t1)
  show "(S mod 86400) div 3600 = (h + off) mod 24" by (simp add: S2 l1 t2)
  show "((S mod 86400) mod 3600) div 60 = m" by (simp only: S2 l2 m1)
  show "((S mod 86400) mod 3600) mod 60 = s" by (simp only: S2 l2 m2)
qed


lemma new_timedelta_seconds:
  assumes "0 \<le> us" "us < 1000000" "\<bar>d + s div 86400\<bar> \<le> 999999999"
  shows "new_timedelta d 0 0 s us =
    Inr \<lparr>days = d + s div 86400, seconds = s mod 86400, microseconds = us\<rparr>"
  using assms by (simp add: new_timedelta_def Let_def)

lemma shifted_time_value:
  assumes "valid_datetime t" and "- 24 \<le> off" "off \<le> 24"
  shows "\<exists>shift. new_timedelta 0 off 0 0 0 = Inr shift \<and> datetime_add t shift =
    (if 0 < ordinal t + (hour t + off) div 24 \<and> ordinal t + (hour t + off) div 24 \<le> MAXORDINAL
     then Inr \<lparr>ordinal = ordinal t + (hour t + off) div 24, hour = (hour t + off) mod 24,
       minute = minute t, second = second t, microsecond = microsecond t\<rparr>
     else Inl OverflowError)"
proof -
  from assms(1) have v: "0 \<le> hour t" "hour t < 24" "0 \<le> minute t" "minute t < 60"
    "0 \<le> second t" "second t < 60" "0 \<le> microsecond t" "microsecond t < 1000000"
    "1 \<le> ordinal t" "ordinal t \<le> MAXORDINAL"
    by (simp_all add: valid_datetime_def)
  define D where "D = (3600 * off) div 86400"
  define R where "R = (3600 * off) mod 86400"
  define base where "base = second t + 60 * minute t + 3600 * hour t"
  define S where "S = base + R"
  have S': "S = second t + 60 * minute t + 3600 * hour t + (3600 * off) mod 86400"
    by (simp add: S_def base_def R_def)
  note ca = clock_arith[OF v(1-6), of off, folded S', folded D_def]
  have d0: "\<bar>D\<bar> \<le> 999999999" using assms(2,3) by (simp add: D_def)
  have shift: "new_timedelta 0 off 0 0 0 = Inr \<lparr>days = D, seconds = R, microseconds = 0\<rparr>"
    using d0 by (simp add: new_timedelta_def Let_def D_def R_def)
  have base: "0 \<le> base" "base < 86400" using v(1-6) by (simp_all add: base_def)
  have b1: "base div 86400 = 0" "base mod 86400 = base" using base by simp_all
  have mx: "\<bar>ordinal t\<bar> \<le> 999999999" using v(9,10) by (simp add: MAXORDINAL_def)
  have us: "microsecond t div 1000000 = 0" "microsecond t mod 1000000 = microsecond t"
    using v(7,8) by simp_all
  have delta0: "new_timedelta (ordinal t) (hour t) (minute t) (second t) (microsecond t) =
      Inr \<lparr>days = ordinal t, seconds = base, microseconds = microsecond t\<rparr>"
    using mx b1 us by (simp add: new_timedelta_def Let_def base_def[symmetric])
  have "- 24 \<le> hour t + off" "hour t + off < 48" using v(1,2) assms(2,3) by simp_all
  then have hd: "- 1 \<le> (hour t + off) div 24" "(hour t + off) div 24 \<le> 1"
    by simp_all
  have day: "ordinal t + D + S div 86400 = ordinal t + (hour t + off) div 24"
    using ca(1) by simp
  have rng: "\<bar>ordinal t + (hour t + off) div 24\<bar> \<le> 999999999"
    using hd v(9,10) by (simp add: MAXORDINAL_def)
  have "timedelta_add \<lparr>days = ordinal t, seconds = base, microseconds = microsecond t\<rparr>
      \<lparr>days = D, seconds = R, microseconds = 0\<rparr> =
      new_timedelta (ordinal t + D) 0 0 S (microsecond t)"
    by (simp add: timedelta_add_def S_def)
  also have "\<dots> = Inr \<lparr>days = ordinal t + D + S div 86400, seconds = S mod 86400,
      microseconds = microsecond t\<rparr>"
    using v(7,8) rng by (intro new_timedelta_seconds) (simp_all only: day)
  finally have sum: "timedelta_add \<lparr>days = ordinal t, seconds = base, microseconds = microsecond t\<rparr>
      \<lparr>days = D, seconds = R, microseconds = 0\<rparr> =
      Inr \<lparr>days = ordinal t + (hour t + off) div 24, seconds = S mod 86400,
        microseconds = microsecond t\<rparr>"
    by (simp only: day)
  have "datetime_add t \<lparr>days = D, seconds = R, microseconds = 0\<rparr> =
      (if 0 < ordinal t + (hour t + off) div 24 \<and> ordinal t + (hour t + off) div 24 \<le> MAXORDINAL
       then Inr \<lparr>ordinal = ordinal t + (hour t + off) div 24, hour = (hour t + off) mod 24,
         minute = minute t, second = second t, microsecond = microsecond t\<rparr>
       else Inl OverflowError)"
    by (simp only: datetime_add_def delta0 sum sum.case Let_def timedelta.simps ca(2,3,4))
  with shift show ?thesis by blast
qed

lemma update_time_value:
  assumes "\<not> dict_is_empty (heap app (settings (clock_widget app)))"
    and "valid_datetime t"
    and "- 24 \<le> dict_get (gmt_offset (heap app (settings (clock_widget app)))) 0"
    and "dict_get (gmt_offset (heap app (settings (clock_widget app)))) 0 \<le> 24"
  shows "update_time t app =
    (if 0 < ordinal t +
          (hour t + dict_get (gmt_offset (heap app (settings (clock_widget app)))) 0) div 24 \<and>
        ordinal t +
          (hour t + dict_get (gmt_offset (heap app (settings (clock_widget app)))) 0) div 24
          \<le> MAXORDINAL
     then Inr (app\<lparr>clock_widget := (clock_widget app)
      \<lparr>label_text :=
         two_digits ((hour t + dict_get (gmt_offset (heap app (settings (clock_widget app)))) 0) mod 24) @
         colon_span (if colon_visible (clock_widget app)
           then QColor_name (dict_get (text_color (heap app (settings (clock_widget app)))) QColor_red)
           else ''transparent'') @
         two_digits (minute t),
       colon_visible := \<not> colon_visible (clock_widget app)\<rparr>\<rparr>)
     else Inl OverflowError)"
proof -
  from shifted_time_value[OF assms(2-4)] obtain shift where
    "new_timedelta 0 (dict_get (gmt_offset (heap app (settings (clock_widget app)))) 0) 0 0 0 =
       Inr shift"
    "datetime_add t shift =
      (if 0 < ordinal t +
            (hour t + dict_get (gmt_offset (heap app (settings (clock_widget app)))) 0) div 24 \<and>
          ordinal t +
            (hour t + dict_get (gmt_offset (heap app (settings (clock_widget app)))) 0) div 24
            \<le> MAXORDINAL
       then Inr \<lparr>ordinal = ordinal t +
           (hour t + dict_get (gmt_offset (heap app (settings (clock_widget app)))) 0) div 24,
         hour = (hour t + dict_get (gmt_offset (heap app (settings (clock_widget app)))) 0) mod 24,
         minute = minute t, second = second t, microsecond = microsecond t\<rparr>
       else Inl OverflowError)"
    by blast
  with assms(1) show ?thesis
    by (simp add: update_time_def Let_def strftime_H_def strftime_M_def)
qed

lemma shifted_day_in_range:
  assumes "valid_datetime t" "1 < ordinal t" "ordinal t < MAXORDINAL"
    and "- 24 \<le> off" "off \<le> 24"
  shows "0 < ordinal t + (hour t + off) div 24 \<and> ordinal t + (hour t + off) div 24 \<le> MAXORDINAL"
proof -
  from assms(1) have "0 \<le> hour t" "hour t < 24" by (simp_all add: valid_datetime_def)
  with assms(4,5) have "- 24 \<le> hour t + off" "hour t + off < 48" by simp_all
  then have "- 1 \<le> (hour t + off) div 24" "(hour t + off) div 24 \<le> 1"
    by simp_all
  with assms(2,3) show ?thesis by simp
qed



lemma update_time_result:
  assumes "\<not> dict_is_empty (heap app (settings (clock_widget app)))"
    and "valid_datetime t" "1 < ordinal t" "ordinal t < MAXORDINAL"
    and "- 24 \<le> dict_get (gmt_offset (heap app (settings (clock_widget app)))) 0"
    and "dict_get (gmt_offset (heap app (settings (clock_widget app)))) 0 \<le> 24"
  shows "update_time t app =
    Inr (app\<lparr>clock_widget := (clock_widget app)
      \<lparr>label_text :=
         two_digits ((hour t + dict_get (gmt_offset (heap app (settings (clock_widget app)))) 0) mod 24) @
         colon_span (if colon_visible (clock_widget app)
           then QColor_name (dict_get (text_color (heap app (settings (clock_widget app)))) QColor_red)
           else ''transparent'') @
         two_digits (minute t),
       colon_visible := \<not> colon_visible (clock_widget app)\<rparr>\<rparr>)"
  using update_time_value[OF assms(1,2,5,6)] shifted_day_in_range[OF assms(2-6)]
  by simp

lemma of_char_digit_char:
  assumes "0 \<le> d" "d < 10"
  shows "of_char (digit_char d) = 48 + nat d"
proof -
  have "int (of_char (digit_char d)) = of_char (digit_char d)"
    by (rule of_nat_of_char)
  also have "\<dots> = (48 + d) mod 256"
    by (simp add: digit_char_def)
  also have "\<dots> = 48 + d" using assms by simp
  finally show ?thesis using assms by linarith
qed


lemma digit_char_facts:
  assumes "0 \<le> d" "d < 10"
  shows "is_digit (digit_char d)" "\<not> is_space (digit_char d)"
    "digit_char d \<noteq> CHR ''-''" "digit_char d \<noteq> CHR ''+''"
    "digit_value (digit_char d) = nat d"
proof -
  note c = of_char_digit_char[OF assms]
  from assms have r: "nat d < 10" by simp
  show "is_digit (digit_char d)" using r by (simp add: is_digit_def c)
  show "\<not> is_space (digit_char d)" using r by (simp add: is_space_def c)
  show "digit_value (digit_char d) = nat d" by (simp add: digit_value_def c)
  have "of_char (digit_char d) \<noteq> (of_char CHR ''-'' :: nat)" using r by (simp add: c)
  then show "digit_char d \<noteq> CHR ''-''" by (rule contrapos_nn) (simp only:)
  have "of_char (digit_char d) \<noteq> (of_char CHR ''+'' :: nat)" using r by (simp add: c)
  then show "digit_char d \<noteq> CHR ''+''" by (rule contrapos_nn) (simp only:)
qed

lemma two_digits_decimal:
  assumes "0 \<le> n" "n < 100"
  shows "length (two_digits n) = 2" "py_int (two_digits n) = Some n"
proof -
  show "length (two_digits n) = 2" by (simp add: two_digits_def)
  have a: "0 \<le> n div 10" "n div 10 < 10" and b: "0 \<le> n mod 10" "n mod 10 < 10"
    using assms by simp_all
  note fa = digit_char_facts[OF a] and fb = digit_char_facts[OF b]
  have st: "strip (two_digits n) = two_digits n"
    using fa(2) fb(2) by (simp add: strip_def two_digits_def)
  have "int (10 * nat (n div 10) + nat (n mod 10)) = n" using a b by simp
  then show "py_int (two_digits n) = Some n"
    unfolding py_int_def st using fa fb
    by (simp add: two_digits_def digits_def max_str_digits_def)
qed

text \<open>
  On the first day of the calendar a negative offset leaves the range of \<^verbatim>\<open>datetime\<close>.
\<close>

lemma shifted_time_first_day:
  "\<exists>shift. new_timedelta 0 (- 3) 0 0 0 = Inr shift \<and>
     datetime_add \<lparr>ordinal = 1, hour = 0, minute = 30, second = 0, microsecond = 0\<rparr> shift =
       Inl OverflowError"
  using shifted_time_value[of "\<lparr>ordinal = 1, hour = 0, minute = 30, second = 0, microsecond = 0\<rparr>"
      "- 3"]
  by (simp add: valid_datetime_def MAXORDINAL_def)

section \<open>The initial state\<close>

lemma MainApp_init_fields:
  "heap MainApp_init 0 = default_settings"
  "heap MainApp_init 1 = empty_dict"
  "form_settings (settings_widget MainApp_init) = 0"
  "settings (clock_widget MainApp_init) = 1"
  "\<not> timer_active (clock_widget MainApp_init)"
  "colon_visible (clock_widget MainApp_init)"
  "current_widget MainApp_init = Settings_Screen"
  "window_state MainApp_init = Normal"
  "window_size MainApp_init = (400, 500)"
  "minimum_size MainApp_init = (0, 0)"
  by (simp_all add: MainApp_init_def show_settings_def stop_clock_def showNormal_def
      resize_def expandedTo_def setCurrentWidget_def Let_def)



lemma parse_default_resolution: "parse_resolution ''1920x1080'' = Inr (1920, 1080)"
  by (simp add: parse_resolution_def py_int_def strip_def is_space_def digits_def is_digit_def
      digit_value_def max_str_digits_def)

lemma start_from_init:
  "handle Start_clicked MainApp_init = Inr started"
  "heap started = heap MainApp_init"
  "settings (clock_widget started) = 0"
  "colon_visible (clock_widget started)"
  "timer_active (clock_widget started)"
  "current_widget started = Clock_Screen"
  "window_state started = FullScreen"
  "minimum_size started = (0, 0)"
proof -
  have p: "parse_resolution (dict_get (resolution (heap MainApp_init 0)) ''1920x1080'') =
      Inr (1920, 1080)"
    by (simp add: MainApp_init_fields default_settings_def dict_get_def
        parse_default_resolution)
  have r: "show_clock 0 MainApp_init = Inr
     ((select_window ''Full Screen'' MainApp_init)\<lparr>current_widget := Clock_Screen,
      clock_widget := (clock_widget MainApp_init)\<lparr>settings := 0,
        window_color := Some QColor_black, label_color := Some QColor_red,
        timer_active := True, timer_interval := 500, has_focus := True,
        label_font := Some \<lparr>family = dict_get (font_family (heap MainApp_init 0)) ''Monospace'',
          pixelSize = (if 0 < spec_pixel_size 1080 ''Full Screen''
            then spec_pixel_size 1080 ''Full Screen'' else - 1)\<rparr>\<rparr>\<rparr>)"
    by (rule show_clock_result[OF p])
      (simp_all add: MainApp_init_fields default_settings_def)
  have h: "handle Start_clicked MainApp_init = show_clock 0 MainApp_init"
    by (simp add: on_start_def MainApp_init_fields split: sum.splits)
  show "handle Start_clicked MainApp_init = Inr started"
    by (simp only: started_def h r sum.case)
  have s: "started = (select_window ''Full Screen'' MainApp_init)\<lparr>current_widget := Clock_Screen,
      clock_widget := (clock_widget MainApp_init)\<lparr>settings := 0,
        window_color := Some QColor_black, label_color := Some QColor_red,
        timer_active := True, timer_interval := 500, has_focus := True,
        label_font := Some \<lparr>family = dict_get (font_family (heap MainApp_init 0)) ''Monospace'',
          pixelSize = (if 0 < spec_pixel_size 1080 ''Full Screen''
            then spec_pixel_size 1080 ''Full Screen'' else - 1)\<rparr>\<rparr>\<rparr>"
    by (simp only: started_def h r sum.case)
  show "heap started = heap MainApp_init" "settings (clock_widget started) = 0"
    "colon_visible (clock_widget started)" "timer_active (clock_widget started)"
    "current_widget started = Clock_Screen" "window_state started = FullScreen"
    "minimum_size started = (0, 0)"
    by (simp_all add: s select_window_def showFullScreen_def MainApp_init_fields)
qed

lemma started_fields:
  "heap started (settings (clock_widget started)) = default_settings"
  "colon_visible (clock_widget started)"
  "timer_active (clock_widget started)"
  by (simp_all add: start_from_init MainApp_init_fields)

lemma two_digits_examples:
  "two_digits 11 = ''11''" "two_digits 0 = ''00''"
  by (simp_all add: two_digits_def digit_char_def char_of_def)

lemma parse_1366x768: "parse_resolution ''1366x768'' = Inr (1366, 768)"
  by (simp add: parse_resolution_def py_int_def strip_def is_space_def digits_def is_digit_def
      digit_value_def max_str_digits_def)

section \<open>Parsing the resolution\<close>

lemma str_split_not_Nil: "str_split c s \<noteq> []"
  by (induction s) (auto split: list.splits)

lemma str_split_single: "str_split c s = [p] \<longleftrightarrow> p = s \<and> c \<notin> set s"
proof (induction s arbitrary: p)
  case Nil
  then show ?case by auto
next
  case (Cons x xs)
  show ?case
  proof (cases "x = c")
    case True
    then show ?thesis by (simp add: str_split_not_Nil)
  next
    case False
    show ?thesis
    proof
      assume a: "str_split c (x # xs) = [p]"
      obtain q qs where q: "str_split c xs = q # qs"
        using str_split_not_Nil[of c xs] by (cases "str_split c xs") simp_all
      with a False have pq: "p = x # q" "qs = []" by simp_all
      with q Cons.IH[of q] have "q = xs" "c \<notin> set xs" by simp_all
      with pq False show "p = x # xs \<and> c \<notin> set (x # xs)" by simp
    next
      assume a: "p = x # xs \<and> c \<notin> set (x # xs)"
      then have "str_split c xs = [xs]" using Cons.IH[of xs] by simp
      with False a show "str_split c (x # xs) = [p]" by simp
    qed
  qed
qed

lemma str_split_pair:
  "str_split c s = [w, h] \<longleftrightarrow> s = w @ c # h \<and> c \<notin> set w \<and> c \<notin> set h"
proof (induction s arbitrary: w)
  case Nil
  then show ?case by auto
next
  case (Cons x xs)
  show ?case
  proof (cases "x = c")
    case True
    then show ?thesis
      by (auto simp: str_split_single Cons_eq_append_conv)
  next
    case False
    show ?thesis
    proof
      assume a: "str_split c (x # xs) = [w, h]"
      with False obtain p where p: "str_split c xs = [p, h]" "w = x # p"
        by (auto split: list.splits)
      from Cons.IH[of p] p(1) have "xs = p @ c # h" "c \<notin> set p" "c \<notin> set h" by simp_all
      with p(2) False show "x # xs = w @ c # h \<and> c \<notin> set w \<and> c \<notin> set h" by auto
    next
      assume a: "x # xs = w @ c # h \<and> c \<notin> set w \<and> c \<notin> set h"
      with False obtain p where p: "w = x # p" "xs = p @ c # h"
        by (cases w) auto
      with a have "str_split c xs = [p, h]" using Cons.IH[of p] by simp
      with False p(1) show "str_split c (x # xs) = [w, h]" by simp
    qed
  qed
qed

lemma not_decimal_body_Nil: "\<not> decimal_body []"
  by (auto elim: decimal_body.cases)

lemma underscore_not_digit: "\<not> is_digit CHR ''_''"
  by (simp add: is_digit_def)

lemma decimal_body_Cons:
  "decimal_body (c # cs) \<longleftrightarrow>
   is_digit c \<and> (cs = [] \<or> decimal_body cs \<or> (\<exists>b. cs = CHR ''_'' # b \<and> decimal_body b))"
  by (subst decimal_body.simps) auto

lemma digits_tail_accepts:
  "digits_tail acc cs \<noteq> None \<longleftrightarrow>
   cs = [] \<or> decimal_body cs \<or> (\<exists>b. cs = CHR ''_'' # b \<and> decimal_body b)"
proof (induction acc cs rule: digits_tail.induct)
  case (1 acc)
  show ?case by simp
next
  case (2 acc c)
  show ?case by (auto simp: decimal_body_Cons not_decimal_body_Nil underscore_not_digit)
next
  case (3 acc c d cs)
  show ?case
  proof (cases "is_digit c")
    case True
    then have "c \<noteq> CHR ''_''" using underscore_not_digit by auto
    with True 3(1) show ?thesis
      by (simp add: decimal_body_Cons[of c])
  next
    case False
    show ?thesis
    proof (cases "c = CHR ''_'' \<and> is_digit d")
      case True
      with False 3(2) show ?thesis
        by (simp add: decimal_body_Cons[of d] decimal_body_Cons[of "CHR ''_''"] underscore_not_digit)
    next
      case b: False
      with False show ?thesis
        by (auto simp: decimal_body_Cons[of c] decimal_body_Cons[of d])
    qed
  qed
qed

lemma digits_accepts: "digits s \<noteq> None \<longleftrightarrow> decimal_body s"
  by (cases s) (simp_all add: digits_def not_decimal_body_Nil decimal_body_Cons digits_tail_accepts
      del: not_None_eq)

lemma digits_tail_value:
  "digits_tail acc cs = Some n \<Longrightarrow>
   n = foldl (\<lambda>a c. 10 * a + digit_value c) acc (filter is_digit cs)"
  by (induction acc cs arbitrary: n rule: digits_tail.induct)
    (auto simp: underscore_not_digit split: if_splits)

lemma decimal_body_ends:
  "decimal_body b \<Longrightarrow> b \<noteq> [] \<and> is_digit (hd b) \<and> is_digit (last b)"
  by (induction rule: decimal_body.induct) auto

lemma digit_not_space: "is_digit c \<Longrightarrow> \<not> is_space c"
  by (auto simp: is_digit_def is_space_def)

lemma sign_not_space: "\<not> is_space CHR ''+''" "\<not> is_space CHR ''-''"
  by (simp_all add: is_space_def)

lemma sign_not_digit: "\<not> is_digit CHR ''+''" "\<not> is_digit CHR ''-''"
  by (simp_all add: is_digit_def)

lemma strip_decomposition:
  "\<exists>lead trail. s = lead @ strip s @ trail \<and>
     (\<forall>c \<in> set lead. is_space c) \<and> (\<forall>c \<in> set trail. is_space c)"
proof -
  define d where "d = dropWhile is_space s"
  have a: "s = takeWhile is_space s @ d" by (simp add: d_def)
  have "rev (dropWhile is_space (rev d)) @ rev (takeWhile is_space (rev d)) =
      rev (takeWhile is_space (rev d) @ dropWhile is_space (rev d))"
    by (simp only: rev_append)
  also have "\<dots> = d" by (simp only: takeWhile_dropWhile_id rev_rev_ident)
  finally have b: "d = strip s @ rev (takeWhile is_space (rev d))"
    by (simp only: strip_def d_def)
  have c: "\<forall>c \<in> set (takeWhile is_space s). is_space c"
    by (auto dest: set_takeWhileD)
  have e: "\<forall>c \<in> set (rev (takeWhile is_space (rev d))). is_space c"
    by (auto dest: set_takeWhileD)
  from a b have "s = takeWhile is_space s @ strip s @ rev (takeWhile is_space (rev d))"
    by simp
  with c e show ?thesis by blast
qed

lemma strip_between:
  assumes "\<forall>c \<in> set lead. is_space c" "\<forall>c \<in> set trail. is_space c"
    and "t \<noteq> []" "\<not> is_space (hd t)" "\<not> is_space (last t)"
  shows "strip (lead @ t @ trail) = t"
proof -
  from assms(3,4) have a: "dropWhile is_space (t @ trail) = t @ trail"
    by (cases t) simp_all
  from assms(3,5) have b: "dropWhile is_space (rev t) = rev t"
    by (cases "rev t") (simp_all add: last_rev[symmetric] hd_rev)
  have "dropWhile is_space (lead @ t @ trail) = t @ trail"
    using assms(1) a by simp
  moreover have "dropWhile is_space (rev trail @ rev t) = rev t"
    using assms(2) b by (subst dropWhile_append2) auto
  ultimately show ?thesis by (simp add: strip_def)
qed

lemma py_int_accepts: "py_int s \<noteq> None \<longleftrightarrow> integer_text s"
proof
  assume ok: "py_int s \<noteq> None"
  from strip_decomposition[of s] obtain lead trail where
    s: "s = lead @ strip s @ trail" and
    sp: "\<forall>c \<in> set lead. is_space c" "\<forall>c \<in> set trail. is_space c" by blast
  from ok obtain c cs where t: "strip s = c # cs"
    by (cases "strip s") (simp_all add: py_int_def)
  from ok t have lim: "length (filter is_digit (c # cs)) \<le> max_str_digits"
    by (auto simp: py_int_def split: if_splits)
  have "\<exists>sign body. c # cs = sign @ body \<and> sign \<in> {[], ''+'', ''-''} \<and> decimal_body body \<and>
      length (filter is_digit body) \<le> max_str_digits"
  proof (cases "c = CHR ''-'' \<or> c = CHR ''+''")
    case True
    with ok t lim have "decimal_body cs"
      by (auto simp: py_int_def digits_accepts[symmetric] split: if_splits)
    moreover from True lim have "length (filter is_digit cs) \<le> max_str_digits"
      by (auto simp: sign_not_digit)
    moreover from True have "c # cs = ''-'' @ cs \<or> c # cs = ''+'' @ cs" by auto
    ultimately show ?thesis by blast
  next
    case False
    with ok t lim have "decimal_body (c # cs)"
      by (auto simp: py_int_def digits_accepts[symmetric] split: if_splits)
    with lim have "c # cs = [] @ (c # cs) \<and> decimal_body (c # cs) \<and>
      length (filter is_digit (c # cs)) \<le> max_str_digits" by simp
    then show ?thesis by blast
  qed
  then obtain sign body where b: "c # cs = sign @ body" "sign \<in> {[], ''+'', ''-''}"
    "decimal_body body" "length (filter is_digit body) \<le> max_str_digits" by blast
  from s t b(1) have "s = lead @ sign @ body @ trail" by simp
  with sp b(2,3,4) show "integer_text s" unfolding integer_text_def by blast
next
  assume "integer_text s"
  then obtain lead sign body trail where s: "s = lead @ sign @ body @ trail"
    and sp: "\<forall>c \<in> set lead. is_space c" "\<forall>c \<in> set trail. is_space c"
    and sg: "sign \<in> {[], ''+'', ''-''}" and bd: "decimal_body body"
    and lim: "length (filter is_digit body) \<le> max_str_digits"
    unfolding integer_text_def by blast
  from decimal_body_ends[OF bd] obtain c cs where b: "body = c # cs" "is_digit c"
    "is_digit (last body)" by (cases body) auto
  have ne: "sign @ body \<noteq> []" using b(1) by simp
  have h: "\<not> is_space (hd (sign @ body))"
    using sg b(1,2) by (auto simp: digit_not_space sign_not_space)
  have l: "\<not> is_space (last (sign @ body))"
    using b(1,3) by (simp add: digit_not_space)
  have st: "strip s = sign @ body"
    using strip_between[OF sp ne h l] by (simp add: s)
  from bd have d: "digits body \<noteq> None" by (simp only: digits_accepts)
  from b(2) have cn: "c \<noteq> CHR ''-''" "c \<noteq> CHR ''+''" using sign_not_digit by auto
  from d obtain n where n: "digits body = Some n" by auto
  from lim have lim': "\<not> max_str_digits < length (filter is_digit body)" by simp
  from sg consider "sign = []" | "sign = ''+''" | "sign = ''-''" by auto
  then have "\<exists>v. py_int s = Some v"
  proof cases
    case 1
    with st b(1) have "strip s = c # cs" by simp
    then show ?thesis
      using cn lim' n by (simp add: py_int_def b(1))
  next
    case 2
    with st have "strip s = CHR ''+'' # body" by simp
    then show ?thesis
      using lim' n by (simp add: py_int_def sign_not_digit)
  next
    case 3
    with st have "strip s = CHR ''-'' # body" by simp
    then show ?thesis
      using lim' n by (simp add: py_int_def sign_not_digit)
  qed
  then show "py_int s \<noteq> None" by auto
qed

lemma parse_resolution_ok_iff:
  "(\<exists>w h. parse_resolution text = Inr (w, h)) \<longleftrightarrow> resolution_form text"
proof
  assume "\<exists>w h. parse_resolution text = Inr (w, h)"
  then obtain width height where sp: "str_split CHR ''x'' text = [width, height]"
    and i: "py_int width \<noteq> None" "py_int height \<noteq> None"
    by (auto simp: parse_resolution_def split: list.splits option.splits)
  from sp have "text = width @ ''x'' @ height" "CHR ''x'' \<notin> set width" "CHR ''x'' \<notin> set height"
    by (simp_all add: str_split_pair)
  moreover from i have "integer_text width" "integer_text height"
    by (simp_all only: py_int_accepts)
  ultimately show "resolution_form text" unfolding resolution_form_def by blast
next
  assume "resolution_form text"
  then obtain width height where t: "text = width @ ''x'' @ height"
    "CHR ''x'' \<notin> set width" "CHR ''x'' \<notin> set height"
    and j: "integer_text width" "integer_text height"
    unfolding resolution_form_def by blast
  from j have i: "py_int width \<noteq> None" "py_int height \<noteq> None"
    by (simp_all only: py_int_accepts)
  from t have "str_split CHR ''x'' text = [width, height]" by (simp add: str_split_pair)
  with i show "\<exists>w h. parse_resolution text = Inr (w, h)"
    by (auto simp: parse_resolution_def)
qed

lemma parse_resolution_errors:
  "parse_resolution text = Inl e \<Longrightarrow> e = ValueError"
  by (auto simp: parse_resolution_def split: list.splits option.splits)

lemma parse_resolution_fails_iff:
  "parse_resolution text = Inl ValueError \<longleftrightarrow> \<not> resolution_form text"
proof -
  have "parse_resolution text = Inl ValueError \<longleftrightarrow> \<not> (\<exists>w h. parse_resolution text = Inr (w, h))"
  proof (cases "parse_resolution text")
    case (Inl e)
    then show ?thesis using parse_resolution_errors[OF Inl] by simp
  next
    case (Inr p)
    then show ?thesis by (cases p) simp
  qed
  then show ?thesis by (simp only: parse_resolution_ok_iff)
qed

lemma presets_parse:
  "map parse_resolution resolution_items =
    [Inr (1920, 1080), Inr (1680, 1050), Inr (1600, 900), Inr (1440, 900), Inr (1366, 768),
     Inr (1360, 768), Inr (1280, 1024), Inr (1280, 960), Inr (1280, 800), Inr (1280, 720),
     Inr (1280, 600)]"
  by (simp add: resolution_items_def parse_resolution_def py_int_def strip_def is_space_def
      digits_def is_digit_def digit_value_def max_str_digits_def)

lemma preset_parses:
  assumes "r \<in> set resolution_items"
  shows "\<exists>w h. parse_resolution r = Inr (w, h) \<and> 0 \<le> h \<and> h < 2 ^ 31"
proof -
  from assms have "parse_resolution r \<in> set (map parse_resolution resolution_items)"
    by simp
  then show ?thesis unfolding presets_parse by auto
qed

lemma start_clock_errors: "start_clock s app = Inl e \<Longrightarrow> e = KeyError"
  by (auto simp: start_clock_def Let_def dict_item_def split: option.splits)

lemma update_font_size_errors: "update_font_size h w m app = Inl e \<Longrightarrow> e = OverflowError"
  by (auto simp: update_font_size_def pixel_size_def float_of_int_def setPixelSize_def Let_def
      split: sum.splits if_splits)

lemma show_clock_ValueError_iff:
  "show_clock s app = Inl ValueError \<longleftrightarrow>
   parse_resolution (dict_get (resolution (heap app s)) ''1920x1080'') = Inl ValueError"
proof (cases "parse_resolution (dict_get (resolution (heap app s)) ''1920x1080'')")
  case (Inl e)
  then show ?thesis by (simp add: show_clock_def Let_def setCurrentWidget_def)
next
  case (Inr p)
  have "show_clock s app \<noteq> Inl ValueError"
  proof
    assume a: "show_clock s app = Inl ValueError"
    from a Inr show False
      by (auto simp: show_clock_def Let_def setCurrentWidget_def dict_item_def
          split: sum.splits prod.splits option.splits
          dest: start_clock_errors update_font_size_errors)
  qed
  with Inr show ?thesis by simp
qed

section \<open>Mutations of the form after a start\<close>










section \<open>The window\<close>








section \<open>Properties\<close>

text \<open>
  C8. \<^verbatim>\<open>stop_clock\<close> is idempotent: on a state whose timer is already stopped it changes
  nothing, and on every state two calls leave the state one call leaves.
\<close>

theorem stop_clock_idempotent:
  "(\<not> timer_active (clock_widget app) \<longrightarrow> stop_clock app = app) \<and>
   stop_clock (stop_clock app) = stop_clock app"
  by (simp add: stop_clock_def)


theorem stop_clock_idempotent_witness:
  "\<not> timer_active (clock_widget MainApp_init) \<and> stop_clock MainApp_init = MainApp_init \<and>
   stop_clock (stop_clock MainApp_init) = stop_clock MainApp_init"
proof -
  have stopped: "\<not> timer_active (clock_widget MainApp_init)"
    by (rule MainApp_init_fields)
  with stop_clock_idempotent[of MainApp_init] show ?thesis by blast
qed

text \<open>
  C7. On the escape key \<^verbatim>\<open>keyPressEvent\<close> emits \<^verbatim>\<open>return_to_settings\<close> and nothing else:
  the handler leaves the whole state, the timer's running state included, as it found it.
  Stopping the timer is left to the slot the shell connects to the signal.
\<close>

theorem keyPressEvent_escape_only_emits:
  "keyPressEvent Key_Escape app = (app, [Return_to_settings]) \<and>
   timer_active (clock_widget (fst (keyPressEvent Key_Escape app))) =
     timer_active (clock_widget app) \<and>
   clock_widget (fst (keyPressEvent Key_Escape app)) = clock_widget app"
  by (simp add: keyPressEvent_def)

text \<open>
  C6. No method of the clock screen writes to a settings mapping: after
  \<^verbatim>\<open>start_clock\<close>, \<^verbatim>\<open>update_time\<close>, \<^verbatim>\<open>update_font_size\<close>, \<^verbatim>\<open>stop_clock\<close> and
  \<^verbatim>\<open>keyPressEvent\<close> the store holds what it held before, at every address, also when
  the slot connected to the key handler's signal has run.
\<close>

theorem clock_screen_never_writes_settings:
  "(\<forall>app'. start_clock s app = Inr app' \<longrightarrow> heap app' = heap app) \<and>
   (\<forall>app'. update_time t app = Inr app' \<longrightarrow> heap app' = heap app) \<and>
   (\<forall>app'. update_font_size h w mode app = Inr app' \<longrightarrow> heap app' = heap app) \<and>
   heap (stop_clock app) = heap app \<and>
   heap (fst (keyPressEvent k app)) = heap app \<and>
   (\<forall>app'. handle (Key_pressed k) app = Inr app' \<longrightarrow> heap app' = heap app)"
  by (auto simp: start_clock_frame update_time_frame update_font_size_frame stop_clock_def
      keyPressEvent_def show_settings_state split: if_splits)

theorem clock_screen_never_writes_settings_witness:
  "(\<exists>app'. start_clock 0 MainApp_init = Inr app' \<and> heap app' = heap MainApp_init) \<and>
   (\<exists>app'. update_time \<lparr>ordinal = 738000, hour = 14, minute = 0, second = 30, microsecond = 0\<rparr>
      started = Inr app' \<and> heap app' = heap started) \<and>
   (\<exists>app'. update_font_size 1080 1920 ''Full Screen'' started = Inr app' \<and>
      heap app' = heap started)"
proof -
  let ?t = "\<lparr>ordinal = 738000, hour = 14, minute = 0, second = 30, microsecond = 0\<rparr>"
  have a: "\<exists>app'. start_clock 0 MainApp_init = Inr app'"
    by (simp add: start_clock_def MainApp_init_fields default_settings_def dict_item_def Let_def)
  have v: "valid_datetime ?t" "1 < ordinal ?t" "ordinal ?t < MAXORDINAL"
    by (simp_all add: valid_datetime_def MAXORDINAL_def)
  have ne: "\<not> dict_is_empty (heap started (settings (clock_widget started)))"
    by (simp add: started_fields default_settings_def dict_is_empty_def)
  have o: "- 24 \<le> dict_get (gmt_offset (heap started (settings (clock_widget started)))) 0"
    "dict_get (gmt_offset (heap started (settings (clock_widget started)))) 0 \<le> 24"
    by (simp_all add: started_fields default_settings_def dict_get_def)
  have b: "\<exists>app'. update_time ?t started = Inr app'"
    using update_time_result[OF ne v o] by blast
  have c: "\<exists>app'. update_font_size 1080 1920 ''Full Screen'' started = Inr app'"
    using update_font_size_result[of 1080 1920 "''Full Screen''" started] by simp
  from a b c
    clock_screen_never_writes_settings[where s = 0 and app = MainApp_init]
    clock_screen_never_writes_settings[where t = ?t and app = started and h = 1080
      and w = 1920 and mode = "''Full Screen''"]
  show ?thesis by blast
qed




text \<open>
  C1. For a GMT offset between -12 and 14 and a valid UTC \<^verbatim>\<open>datetime\<close>,
  \<^verbatim>\<open>update_time\<close> writes the hour \<open>(hour + offset) mod 24\<close> and the minute of the
  instant, each as two decimal digits, around the colon; nothing but the instant and the
  offset enters, so there is no daylight-saving shift. The only other outcome is the
  \<^verbatim>\<open>OverflowError\<close> of \<^verbatim>\<open>datetime + timedelta\<close> when the shifted date leaves the range of
  \<^verbatim>\<open>datetime\<close>, which cannot happen unless the instant is on the first or the last day
  \<^verbatim>\<open>datetime\<close> can represent.
\<close>

theorem update_time_shows_offset_hour:
  assumes "valid_datetime utc" and "- 12 \<le> off" "off \<le> 14"
    and "gmt_offset (heap app (settings (clock_widget app))) = Some off"
  shows "((\<exists>app'. update_time utc app = Inr app' \<and>
        label_text (clock_widget app') =
          two_digits ((hour utc + off) mod 24) @
          colon_span (if colon_visible (clock_widget app) then shown_color app
            else ''transparent'') @
          two_digits (minute utc)) \<or>
      update_time utc app = Inl OverflowError) \<and>
    (1 < ordinal utc \<and> ordinal utc < MAXORDINAL \<longrightarrow>
      (\<exists>app'. update_time utc app = Inr app' \<and>
        label_text (clock_widget app') =
          two_digits ((hour utc + off) mod 24) @
          colon_span (if colon_visible (clock_widget app) then shown_color app
            else ''transparent'') @
          two_digits (minute utc))) \<and>
    length (two_digits ((hour utc + off) mod 24)) = 2 \<and>
    py_int (two_digits ((hour utc + off) mod 24)) = Some ((hour utc + off) mod 24) \<and>
    length (two_digits (minute utc)) = 2 \<and>
    py_int (two_digits (minute utc)) = Some (minute utc)"
proof -
  let ?d = "heap app (settings (clock_widget app))"
  let ?text = "two_digits ((hour utc + off) mod 24) @
          colon_span (if colon_visible (clock_widget app) then shown_color app
            else ''transparent'') @
          two_digits (minute utc)"
  from assms(4) have ne: "\<not> dict_is_empty ?d" by (simp add: dict_is_empty_def)
  from assms(4) have off: "dict_get (gmt_offset ?d) 0 = off" by (simp add: dict_get_def)
  from assms(2,3) have b: "- 24 \<le> dict_get (gmt_offset ?d) 0" "dict_get (gmt_offset ?d) 0 \<le> 24"
    by (simp_all add: off)
  note r = update_time_value[OF ne assms(1) b, unfolded off]
  have always: "(\<exists>app'. update_time utc app = Inr app' \<and> label_text (clock_widget app') = ?text) \<or>
      update_time utc app = Inl OverflowError"
    unfolding r by (simp add: shown_color_def)
  have inside: "\<exists>app'. update_time utc app = Inr app' \<and> label_text (clock_widget app') = ?text"
    if "1 < ordinal utc" "ordinal utc < MAXORDINAL"
    unfolding r using shifted_day_in_range[OF assms(1) that b[unfolded off]]
    by (simp add: shown_color_def)
  have h: "0 \<le> (hour utc + off) mod 24" "(hour utc + off) mod 24 < 100" by simp_all
  from assms(1) have m: "0 \<le> minute utc" "minute utc < 100" by (simp_all add: valid_datetime_def)
  from always inside two_digits_decimal[OF h] two_digits_decimal[OF m] show ?thesis
    by blast
qed

theorem update_time_shows_offset_hour_witness:
  "valid_datetime \<lparr>ordinal = 738000, hour = 14, minute = 0, second = 30, microsecond = 0\<rparr> \<and>
   gmt_offset (heap started (settings (clock_widget started))) = Some (- 3) \<and>
   (\<exists>app'.
      update_time \<lparr>ordinal = 738000, hour = 14, minute = 0, second = 30, microsecond = 0\<rparr>
        started = Inr app' \<and>
      label_text (clock_widget app') = ''11'' @ colon_span ''#ff0000'' @ ''00'')"
proof -
  let ?t = "\<lparr>ordinal = 738000, hour = 14, minute = 0, second = 30, microsecond = 0\<rparr>"
  have v: "valid_datetime ?t" "1 < ordinal ?t" "ordinal ?t < MAXORDINAL"
    by (simp_all add: valid_datetime_def MAXORDINAL_def)
  have g: "gmt_offset (heap started (settings (clock_widget started))) = Some (- 3)"
    by (simp add: started_fields default_settings_def)
  have o: "- 12 \<le> (- 3 :: int)" "(- 3 :: int) \<le> 14" by simp_all
  have c: "shown_color started = ''#ff0000''"
    by (simp add: shown_color_def started_fields default_settings_def dict_get_def
        QColor_name_def QColor_red_def hex2_def hex_digit_def)
  from update_time_shows_offset_hour[OF v(1) o g] v g show ?thesis
    by (simp add: two_digits_examples started_fields c)
qed







text \<open>
  C2. For a height from 0 up to \<open>2 ^ 31\<close>, the range of the C \<^verbatim>\<open>int\<close> that the font
  takes, the pixel size \<^verbatim>\<open>update_font_size\<close> computes in floating point is the floor of
  the height times 0.30 for \<^verbatim>\<open>'Small'\<close>, 0.50 for \<^verbatim>\<open>'Medium'\<close> and 0.55 otherwise,
  whatever the width, and it is the pixel size of the label's font when it is positive.
  \<^verbatim>\<open>show_clock\<close> passes the height parsed from the selected resolution, not the size of the
  window: \<^verbatim>\<open>'1366x768'\<close> with \<^verbatim>\<open>'Medium'\<close> gives 384.
\<close>

theorem font_size_is_floor_of_height_share:
  assumes "0 \<le> h" "h < 2 ^ 31"
  shows "pixel_size h mode = Inr (spec_pixel_size h mode) \<and>
    update_font_size h w mode app =
      Inr (app\<lparr>clock_widget := (clock_widget app)\<lparr>label_font := Some
        \<lparr>family = dict_get (font_family (heap app (settings (clock_widget app)))) ''Monospace'',
         pixelSize = (if 0 < spec_pixel_size h mode then spec_pixel_size h mode else - 1)\<rparr>\<rparr>\<rparr>) \<and>
    update_font_size h w mode app = update_font_size h w' mode app \<and>
    (parse_resolution (dict_get (resolution (heap app s)) ''1920x1080'') = Inr (w, h) \<and>
     size_mode (heap app s) = Some mode \<and>
     bg_color (heap app s) = Some bg \<and> text_color (heap app s) = Some fg \<longrightarrow>
     (\<exists>app'. show_clock s app = Inr app' \<and>
        label_font (clock_widget app') = Some
          \<lparr>family = dict_get (font_family (heap app s)) ''Monospace'',
           pixelSize = (if 0 < spec_pixel_size h mode then spec_pixel_size h mode else - 1)\<rparr>))"
proof -
  have sc: "\<exists>app'. show_clock s app = Inr app' \<and>
        label_font (clock_widget app') = Some
          \<lparr>family = dict_get (font_family (heap app s)) ''Monospace'',
           pixelSize = (if 0 < spec_pixel_size h mode then spec_pixel_size h mode else - 1)\<rparr>"
    if "parse_resolution (dict_get (resolution (heap app s)) ''1920x1080'') = Inr (w, h)"
      "size_mode (heap app s) = Some mode"
      "bg_color (heap app s) = Some bg" "text_color (heap app s) = Some fg"
    unfolding show_clock_result[OF that(1) assms that(2,3,4)] by simp
  from sc show ?thesis
    by (simp only: pixel_size_spec[OF assms] update_font_size_result[OF assms]) blast
qed

theorem font_size_is_floor_of_height_share_witness:
  "spec_pixel_size 768 ''Medium'' = 384 \<and> pixel_size 768 ''Medium'' = Inr 384 \<and>
   (\<exists>app'. show_clock 0 (set_size ''Medium'' (set_resolution ''1366x768'' MainApp_init)) = Inr app' \<and>
      label_font (clock_widget app') = Some \<lparr>family = ''Monospace'', pixelSize = 384\<rparr>)"
proof -
  let ?a = "set_size ''Medium'' (set_resolution ''1366x768'' MainApp_init)"
  have d: "heap ?a 0 = default_settings\<lparr>size_mode := Some ''Medium'',
      resolution := Some ''1366x768''\<rparr>"
    by (simp add: set_size_def set_resolution_def write_settings_def Let_def
        MainApp_init_fields default_settings_def)
  have p: "parse_resolution (dict_get (resolution (heap ?a 0)) ''1920x1080'') = Inr (1366, 768)"
    by (simp add: d dict_get_def parse_1366x768)
  have h: "(0::int) \<le> 768" "(768::int) < 2 ^ 31" by simp_all
  have m: "size_mode (heap ?a 0) = Some ''Medium''" by (simp add: d)
  have c: "bg_color (heap ?a 0) = Some QColor_black" "text_color (heap ?a 0) = Some QColor_red"
    by (simp_all add: d default_settings_def)
  have f: "dict_get (font_family (heap ?a 0)) ''Monospace'' = ''Monospace''"
    by (simp add: d default_settings_def dict_get_def)
  have v: "spec_pixel_size 768 ''Medium'' = 384"
    by (simp add: spec_pixel_size_value)
  note t = font_size_is_floor_of_height_share[OF h, where mode = "''Medium''" and w = 1366
      and app = ?a and s = 0 and bg = QColor_black and fg = QColor_red]
  from t p m c obtain app' where "show_clock 0 ?a = Inr app'"
    "label_font (clock_widget app') = Some \<lparr>family = ''Monospace'', pixelSize = 384\<rparr>"
    by (auto simp: f v)
  moreover from t have "pixel_size 768 ''Medium'' = Inr 384" by (simp add: v)
  ultimately show ?thesis using v by blast
qed

text \<open>
  C2 as the specification states it, for every target height, fails outside that range.
  \<^verbatim>\<open>int\<close> truncates towards zero, so for a negative height the size is the ceiling, not
  the floor: \<open>- 768\<close> with \<^verbatim>\<open>'Small'\<close> gives \<open>- 230\<close>, and the floor of \<open>- 230.4\<close> is
  \<open>- 231\<close>. A height of more than 53 bits is rounded when it becomes a \<^verbatim>\<open>float\<close>:
  \<open>2 ^ 54 + 2\<close> with \<^verbatim>\<open>'Medium'\<close> gives \<open>2 ^ 53\<close>, one less than the half.
\<close>

theorem floor_of_height_share_counterexample:
  "pixel_size (- 768) ''Small'' = Inr (- 230) \<and>
   spec_pixel_size (- 768) ''Small'' = - 231 \<and>
   pixel_size (2 ^ 54 + 2) ''Medium'' = Inr (2 ^ 53) \<and>
   spec_pixel_size (2 ^ 54 + 2) ''Medium'' = 2 ^ 53 + 1"
proof -
  have b1: "bit_length 768 = 10" "bit_length 4150517416584648960 = 62"
    "bit_length 18014398509481986 = 55" "bit_length 18014398509481984 = 55"
    by (simp_all add: bit_length.simps)
  have a: "pixel_size (- 768) ''Small'' = Inr (- 230)"
    by (simp add: pixel_size_def float_of_int_def round53_def round_to_multiple_def b1
        percentage_def float_0_30_def Let_def)
  have b: "pixel_size (2 ^ 54 + 2) ''Medium'' = Inr (2 ^ 53)"
    by (simp add: pixel_size_def float_of_int_def round53_def round_to_multiple_def b1
        percentage_def float_0_50_def Let_def)
  have c: "spec_pixel_size (- 768) ''Small'' = - 231"
    "spec_pixel_size (2 ^ 54 + 2) ''Medium'' = 2 ^ 53 + 1"
    by (simp_all add: spec_pixel_size_value)
  from a b c show ?thesis by simp
qed


text \<open>
  C10. Every entry of the resolution dropdown splits on \<^verbatim>\<open>x\<close> into two texts that
  \<^verbatim>\<open>int\<close> accepts, so with such an entry selected \<^verbatim>\<open>show_clock\<close> raises no
  \<^verbatim>\<open>ValueError\<close>, and with the size and the two colours present it returns. A text parses
  exactly when it has the form \<^verbatim>\<open>WIDTHxHEIGHT\<close> with integer parts, in the grammar of
  \<open>resolution_form\<close>; for any other text the parse, and with it \<^verbatim>\<open>show_clock\<close>, raises
  \<^verbatim>\<open>ValueError\<close>. So \<^verbatim>\<open>'1366 by 768'\<close> is refused, and so is \<^verbatim>\<open>'1366x768'\<close> after the
  separator U+001F, which \<^verbatim>\<open>int\<close> does not skip; before the white space U+0085 it
  parses.
\<close>

theorem resolution_parse_succeeds_on_presets:
  "(\<forall>r \<in> set resolution_items.
      (\<exists>w h. parse_resolution r = Inr (w, h)) \<and>
      (resolution (heap app s) = Some r \<longrightarrow> show_clock s app \<noteq> Inl ValueError) \<and>
      (resolution (heap app s) = Some r \<and> size_mode (heap app s) = Some mode \<and>
       bg_color (heap app s) = Some bg \<and> text_color (heap app s) = Some fg \<longrightarrow>
       (\<exists>app'. show_clock s app = Inr app'))) \<and>
   (parse_resolution res = Inl ValueError \<longleftrightarrow> \<not> resolution_form res) \<and>
   (resolution (heap app s) = Some res \<longrightarrow>
      (show_clock s app = Inl ValueError \<longleftrightarrow> \<not> resolution_form res))"
proof -
  have a: "(\<exists>w h. parse_resolution r = Inr (w, h)) \<and>
      (resolution (heap app s) = Some r \<longrightarrow> show_clock s app \<noteq> Inl ValueError) \<and>
      (resolution (heap app s) = Some r \<and> size_mode (heap app s) = Some mode \<and>
       bg_color (heap app s) = Some bg \<and> text_color (heap app s) = Some fg \<longrightarrow>
       (\<exists>app'. show_clock s app = Inr app'))"
    if r: "r \<in> set resolution_items" for r
  proof -
    from preset_parses[OF r] obtain w h where p: "parse_resolution r = Inr (w, h)"
      and h: "0 \<le> h" "h < 2 ^ 31" by blast
    have f1: "show_clock s app \<noteq> Inl ValueError" if "resolution (heap app s) = Some r"
      using that p by (simp add: show_clock_ValueError_iff dict_get_def)
    have f2: "\<exists>app'. show_clock s app = Inr app'"
      if "resolution (heap app s) = Some r" "size_mode (heap app s) = Some mode"
        "bg_color (heap app s) = Some bg" "text_color (heap app s) = Some fg"
    proof -
      from that(1) p have "parse_resolution (dict_get (resolution (heap app s)) ''1920x1080'') =
          Inr (w, h)" by (simp add: dict_get_def)
      from show_clock_result[OF this h that(2,3,4)] show ?thesis by blast
    qed
    from p f1 f2 show ?thesis by blast
  qed
  have b: "show_clock s app = Inl ValueError \<longleftrightarrow> \<not> resolution_form res"
    if "resolution (heap app s) = Some res"
    using that by (simp add: show_clock_ValueError_iff dict_get_def parse_resolution_fails_iff)
  from a b parse_resolution_fails_iff[of res] show ?thesis by blast
qed

theorem resolution_parse_succeeds_on_presets_witness:
  "''1366x768'' \<in> set resolution_items \<and>
   parse_resolution ''1366x768'' = Inr (1366, 768) \<and>
   (\<exists>app'. show_clock 0 (set_resolution ''1366x768'' MainApp_init) = Inr app') \<and>
   parse_resolution ''1366 by 768'' = Inl ValueError \<and>
   \<not> resolution_form ''1366 by 768'' \<and>
   show_clock 0 (set_resolution ''1366 by 768'' MainApp_init) = Inl ValueError \<and>
   parse_resolution (CHR 0x1F # ''1366x768'') = Inl ValueError \<and>
   \<not> resolution_form (CHR 0x1F # ''1366x768'') \<and>
   parse_resolution (''1366x768'' @ [CHR 0x85]) = Inr (1366, 768) \<and>
   resolution_form (''1366x768'' @ [CHR 0x85])"
proof -
  let ?a = "set_resolution ''1366x768'' MainApp_init"
  let ?b = "set_resolution ''1366 by 768'' MainApp_init"
  have m: "''1366x768'' \<in> set resolution_items" by (simp add: resolution_items_def)
  have da: "resolution (heap ?a 0) = Some ''1366x768''"
    "size_mode (heap ?a 0) = Some ''Full Screen''"
    "bg_color (heap ?a 0) = Some QColor_black" "text_color (heap ?a 0) = Some QColor_red"
    by (simp_all add: set_resolution_def write_settings_def Let_def MainApp_init_fields
        default_settings_def)
  have db: "resolution (heap ?b 0) = Some ''1366 by 768''"
    by (simp add: set_resolution_def write_settings_def Let_def MainApp_init_fields)
  have f: "parse_resolution ''1366 by 768'' = Inl ValueError"
    by (simp add: parse_resolution_def py_int_def strip_def is_space_def digits_def
        is_digit_def digit_value_def max_str_digits_def)
  note ta = resolution_parse_succeeds_on_presets[where app = ?a and s = 0 and
      mode = "''Full Screen''" and bg = QColor_black and fg = QColor_red and
      res = "''1366 by 768''"]
  note tb = resolution_parse_succeeds_on_presets[where app = ?b and s = 0 and
      res = "''1366 by 768''"]
  from ta m da have f1: "\<exists>app'. show_clock 0 ?a = Inr app'" by blast
  from ta f have f2: "\<not> resolution_form ''1366 by 768''" by blast
  from tb db f2 have f3: "show_clock 0 ?b = Inl ValueError" by blast
  have g: "parse_resolution (CHR 0x1F # ''1366x768'') = Inl ValueError"
    by (simp add: parse_resolution_def py_int_def strip_def is_space_def digits_def
        is_digit_def digit_value_def max_str_digits_def)
  have k: "parse_resolution (''1366x768'' @ [CHR 0x85]) = Inr (1366, 768)"
    by (simp add: parse_resolution_def py_int_def strip_def is_space_def digits_def
        is_digit_def digit_value_def max_str_digits_def)
  from resolution_parse_succeeds_on_presets[where res = "CHR 0x1F # ''1366x768''"] g
  have g2: "\<not> resolution_form (CHR 0x1F # ''1366x768'')" by blast
  from resolution_parse_succeeds_on_presets[where res = "''1366x768'' @ [CHR 0x85]"] k
  have k2: "resolution_form (''1366x768'' @ [CHR 0x85])" by auto
  from m parse_1366x768 f1 f f2 f3 g g2 k k2 show ?thesis by blast
qed





end
